theory Spec2Isabelle
  imports Main
begin

section \<open>Shared vocabulary\<close>

text \<open>
  Errors are values. \<open>TypeError\<close> is what the JavaScript runtime raises when a property
  is read from \<open>null\<close> (the source's non-null assertions \<open>x!\<close> are erased at compile time);
  \<open>RangeError\<close> is what the embed builder of the library raises for an empty field;
  \<open>ApiError\<close> stands for any rejection of an awaited call into a collaborator.
\<close>

datatype error = TypeError | RangeError | ApiError string

text \<open>JavaScript truthiness of a string: only the empty string is falsy.\<close>

definition truthy :: "string \<Rightarrow> bool" where
  "truthy s = (s \<noteq> [])"

text \<open>Truthiness of a nullable string: \<open>null\<close> and the empty string are falsy.\<close>

definition truthy_opt :: "string option \<Rightarrow> bool" where
  "truthy_opt s = (case s of None \<Rightarrow> False | Some t \<Rightarrow> truthy t)"

text \<open>\<open>Array.prototype.join\<close> with a separator.\<close>

fun join :: "string \<Rightarrow> string list \<Rightarrow> string" where
  "join sep [] = []"
| "join sep [x] = x"
| "join sep (x # y # ys) = x @ sep @ join sep (y # ys)"

text \<open>
  \<open>toLowerCase\<close> and \<open>toUpperCase\<close> on the ASCII letters; every other character is
  left as it is.
\<close>

definition upperLetters :: string where
  "upperLetters = ''ABCDEFGHIJKLMNOPQRSTUVWXYZ''"

definition lowerLetters :: string where
  "lowerLetters = ''abcdefghijklmnopqrstuvwxyz''"

definition toLowerChar :: "char \<Rightarrow> char" where
  "toLowerChar c = (case map_of (zip upperLetters lowerLetters) c of Some d \<Rightarrow> d | None \<Rightarrow> c)"

definition toUpperChar :: "char \<Rightarrow> char" where
  "toUpperChar c = (case map_of (zip lowerLetters upperLetters) c of Some d \<Rightarrow> d | None \<Rightarrow> c)"

definition toLowerCase :: "string \<Rightarrow> string" where
  "toLowerCase s = map toLowerChar s"

definition toUpperCase :: "string \<Rightarrow> string" where
  "toUpperCase s = map toUpperChar s"

section \<open>Presence translation: \<open>updatePresence\<close>\<close>

datatype presence_status = Online | Idle | Dnd | Offline

datatype matrix_presence = MxOnline | MxUnavailable | MxOffline

record activity =
  act_type :: string
  act_name :: string
  act_emoji :: "string option"
  act_state :: "string option"

record presence =
  pres_user :: "string option"
  pres_status :: presence_status
  pres_activities :: "activity list"

datatype presence_event =
    SetUserPresence string matrix_presence
  | SetUserStatus string string

text \<open>
  The collaborators of \<open>updatePresence\<close>: the puppet table, the remote-user constructor and
  the two awaited setters, each of which may reject.
\<close>

record presence_env =
  has_puppet :: "int \<Rightarrow> bool"
  getRemoteUser :: "int \<Rightarrow> string \<Rightarrow> string"
  setUserPresence :: "string \<Rightarrow> matrix_presence \<Rightarrow> error option"
  setUserStatus :: "string \<Rightarrow> string \<Rightarrow> error option"

text \<open>The object literal indexed by \<open>presence.status\<close>.\<close>

fun matrixPresence :: "presence_status \<Rightarrow> matrix_presence" where
  "matrixPresence Online = MxOnline"
| "matrixPresence Idle = MxUnavailable"
| "matrixPresence Dnd = MxUnavailable"
| "matrixPresence Offline = MxOffline"

text \<open>The body of the activity loop after its guard: \<open>statusParts\<close> joined by a space.\<close>

definition statusParts :: "activity \<Rightarrow> string list" where
  "statusParts a =
     (if act_type a \<noteq> ''CUSTOM_STATUS'' then
        (let lower = toLowerCase (act_type a) in
           [toUpperCase (take 1 lower) @ drop 1 lower]
           @ (if truthy (act_name a) then [act_name a] else []))
      else
        (case act_emoji a of Some e \<Rightarrow> [e] | None \<Rightarrow> [])
        @ (if truthy_opt (act_state a) then [the (act_state a)] else []))"

text \<open>
  The \<open>for\<close> loop over \<open>presence.activities\<close>, started with the current \<open>statusMsg\<close>.
  \<open>None\<close> is the \<open>return\<close> inside the loop, which leaves the whole function;
  \<open>Some s\<close> is the loop running to its end with \<open>statusMsg = s\<close>.
\<close>

fun scanActivities :: "string \<Rightarrow> activity list \<Rightarrow> string option" where
  "scanActivities statusMsg [] = Some statusMsg"
| "scanActivities statusMsg (a # rest) =
     (if statusMsg \<noteq> [] then None
      else scanActivities (join '' '' (statusParts a)) rest)"

definition updatePresence ::
  "presence_env \<Rightarrow> int \<Rightarrow> presence option \<Rightarrow> presence_event list \<times> error option" where
  "updatePresence env puppetId pres =
     (if \<not> has_puppet env puppetId then ([], None)
      else case pres of
        None \<Rightarrow> ([], None)
      | Some p \<Rightarrow>
         (case pres_user p of
            None \<Rightarrow> ([], None)
          | Some u \<Rightarrow>
             (case scanActivities [] (pres_activities p) of
                None \<Rightarrow> ([], None)
              | Some statusMsg \<Rightarrow>
                 (let remoteUser = getRemoteUser env puppetId u;
                      mp = matrixPresence (pres_status p)
                  in case setUserPresence env remoteUser mp of
                       Some e \<Rightarrow> ([SetUserPresence remoteUser mp], Some e)
                     | None \<Rightarrow>
                        (if truthy statusMsg then
                           ([SetUserPresence remoteUser mp, SetUserStatus remoteUser statusMsg],
                            setUserStatus env remoteUser statusMsg)
                         else ([SetUserPresence remoteUser mp], None))))))"

section \<open>Resolvers: \<open>getUserById\<close> and \<open>getDiscordChan\<close>\<close>

record user =
  user_id :: string
  username :: string

text \<open>\<open>client.user\<close>: the acting account, with its friends collection.\<close>

record client_user =
  cu_id :: string
  cu_bot :: bool
  cu_friends :: "user list"

datatype channel_kind = DMChannel | GroupDMChannel | TextChannel | CategoryChannel | OtherChannel

record channel =
  chan_id :: string
  chan_kind :: channel_kind
  chan_parentID :: "string option"
  chan_members :: "string list"

text \<open>
  A guild: its channel collection in iteration order and the \<open>user\<close> of each of its
  members. A collection is keyed by the id of its values.
\<close>

record guild =
  guild_id :: string
  guild_channels :: "channel list"
  guild_members :: "user list"

text \<open>
  The client: channel cache, guilds, acting account (null before login) and the two
  awaited network calls, each of which may reject.
\<close>

record client =
  client_channels :: "channel list"
  client_guilds :: "guild list"
  client_user :: "client_user option"
  users_fetch :: "string \<Rightarrow> error + user option"
  createDM :: "user \<Rightarrow> error + channel"

text \<open>\<open>Collection.get(id)\<close> on a channel collection.\<close>

definition getChannel :: "channel list \<Rightarrow> string \<Rightarrow> channel option" where
  "getChannel chans id' = find (\<lambda>c. chan_id c = id') chans"

text \<open>The first loop of \<open>getUserById\<close>: the first guild with a member of that id.\<close>

fun findGuildMember :: "guild list \<Rightarrow> string \<Rightarrow> user option" where
  "findGuildMember [] id' = None"
| "findGuildMember (g # gs) id' =
     (case find (\<lambda>m. user_id m = id') (guild_members g) of
        Some a \<Rightarrow> Some a
      | None \<Rightarrow> findGuildMember gs id')"

definition getUserById :: "client \<Rightarrow> string \<Rightarrow> error + user option" where
  "getUserById cl id' =
     (case findGuildMember (client_guilds cl) id' of
        Some u \<Rightarrow> Inr (Some u)
      | None \<Rightarrow>
         (case client_user cl of
            None \<Rightarrow> Inl TypeError
          | Some cu \<Rightarrow>
             (case find (\<lambda>f. user_id f = id') (cu_friends cu) of
                Some u \<Rightarrow> Inr (Some u)
              | None \<Rightarrow>
                 (case users_fetch cl id' of
                    Inl e \<Rightarrow> Inl e
                  | Inr (Some u) \<Rightarrow> Inr (Some u)
                  | Inr None \<Rightarrow> Inr None))))"

text \<open>The guild loop of \<open>getDiscordChan\<close>: the first guild holding a text channel of that id.\<close>

fun findGuildTextChannel :: "guild list \<Rightarrow> string \<Rightarrow> channel option" where
  "findGuildTextChannel [] id' = None"
| "findGuildTextChannel (g # gs) id' =
     (case getChannel (guild_channels g) id' of
        Some c \<Rightarrow> (if chan_kind c = TextChannel then Some c else findGuildTextChannel gs id')
      | None \<Rightarrow> findGuildTextChannel gs id')"

definition startsWith :: "string \<Rightarrow> string \<Rightarrow> bool" where
  "startsWith s p = (take (length p) s = p)"

definition getDiscordChan :: "client \<Rightarrow> string \<Rightarrow> error + channel option" where
  "getDiscordChan cl id' =
     (if \<not> startsWith id' ''dm-'' then
        (case getChannel (client_channels cl) id' of
           Some chan \<Rightarrow>
             (if chan_kind chan = GroupDMChannel \<or> chan_kind chan = TextChannel then Inr (Some chan)
              else Inr (findGuildTextChannel (client_guilds cl) id'))
         | None \<Rightarrow> Inr (findGuildTextChannel (client_guilds cl) id'))
      else
        (let lookupId = drop (length ''dm-'') id' in
         case getUserById cl lookupId of
           Inl e \<Rightarrow> Inl e
         | Inr None \<Rightarrow> Inr None
         | Inr (Some u) \<Rightarrow>
            (case createDM cl u of
               Inl e \<Rightarrow> Inl e
             | Inr chan \<Rightarrow> Inr (Some chan))))"

section \<open>Guild structure walk: \<open>iterateGuildStructure\<close>\<close>

datatype walk_event = OnCategory channel | OnChannel channel

text \<open>
  The collaborators of the walk: the two store lookups and the two callbacks, all awaited,
  so each may reject (\<open>Some e\<close> for a callback, \<open>Inl e\<close> for a lookup).
\<close>

record walk_env =
  getBridgedGuilds :: "int \<Rightarrow> error + string list"
  getBridgedChannels :: "int \<Rightarrow> error + string list"
  catCallback :: "channel \<Rightarrow> error option"
  chanCallback :: "channel \<Rightarrow> error option"

text \<open>Put an event in front of the trace of the continuation.\<close>

definition emit :: "'e \<Rightarrow> 'e list \<times> 'r \<Rightarrow> 'e list \<times> 'r" where
  "emit e m = (e # fst m, snd m)"

text \<open>Run the continuation after a trace.\<close>

definition after :: "'e list \<Rightarrow> 'e list \<times> 'r \<Rightarrow> 'e list \<times> 'r" where
  "after t m = (t @ fst m, snd m)"

text \<open>
  The library's getter \<open>CategoryChannel.children\<close>: the channels of the guild whose
  \<open>parentID\<close> is the id of the category.
\<close>

definition children :: "guild \<Rightarrow> channel \<Rightarrow> channel list" where
  "children g cat = filter (\<lambda>c. chan_parentID c = Some (chan_id cat)) (guild_channels g)"

text \<open>The guard \<open>!bridgedGuilds.includes(guild.id) && !bridgedChannels.includes(chan.id)\<close>.\<close>

definition notBridged :: "string list \<Rightarrow> string list \<Rightarrow> guild \<Rightarrow> channel \<Rightarrow> bool" where
  "notBridged bridgedGuilds bridgedChannels g chan =
     (guild_id g \<notin> set bridgedGuilds \<and> chan_id chan \<notin> set bridgedChannels)"

text \<open>First loop: the channels outside any category. \<open>cu\<close> is \<open>guild.client.user\<close>.\<close>

fun uncategorizedLoop ::
  "walk_env \<Rightarrow> client_user option \<Rightarrow> string list \<Rightarrow> string list \<Rightarrow> guild \<Rightarrow> channel list
   \<Rightarrow> walk_event list \<times> error option" where
  "uncategorizedLoop env cu bg bc g [] = ([], None)"
| "uncategorizedLoop env cu bg bc g (chan # rest) =
     (if notBridged bg bc g chan then uncategorizedLoop env cu bg bc g rest
      else if \<not> truthy_opt (chan_parentID chan) \<and> chan_kind chan = TextChannel then
        (case cu of
           None \<Rightarrow> ([], Some TypeError)
         | Some u \<Rightarrow>
            (if cu_id u \<in> set (chan_members chan) then
               (case chanCallback env chan of
                  Some e \<Rightarrow> ([OnChannel chan], Some e)
                | None \<Rightarrow> emit (OnChannel chan) (uncategorizedLoop env cu bg bc g rest))
             else uncategorizedLoop env cu bg bc g rest))
      else uncategorizedLoop env cu bg bc g rest)"

text \<open>Inner loop of the second pass: the children of one category, with the flag \<open>doCat\<close>.\<close>

fun childrenLoop ::
  "walk_env \<Rightarrow> client_user option \<Rightarrow> string list \<Rightarrow> string list \<Rightarrow> guild \<Rightarrow> channel \<Rightarrow> bool
   \<Rightarrow> channel list \<Rightarrow> walk_event list \<times> error option" where
  "childrenLoop env cu bg bc g cat doCat [] = ([], None)"
| "childrenLoop env cu bg bc g cat doCat (chan # rest) =
     (if notBridged bg bc g chan then childrenLoop env cu bg bc g cat doCat rest
      else if chan_kind chan = TextChannel then
        (case cu of
           None \<Rightarrow> ([], Some TypeError)
         | Some u \<Rightarrow>
            (if cu_id u \<in> set (chan_members chan) then
               (let callChan =
                      (case chanCallback env chan of
                         Some e \<Rightarrow> ([OnChannel chan], Some e)
                       | None \<Rightarrow> emit (OnChannel chan) (childrenLoop env cu bg bc g cat True rest))
                in if \<not> doCat then
                     (case catCallback env cat of
                        Some e \<Rightarrow> ([OnCategory cat], Some e)
                      | None \<Rightarrow> emit (OnCategory cat) callChan)
                   else callChan)
             else childrenLoop env cu bg bc g cat doCat rest))
      else childrenLoop env cu bg bc g cat doCat rest)"

text \<open>Second loop: the categories of the guild.\<close>

fun categoriesLoop ::
  "walk_env \<Rightarrow> client_user option \<Rightarrow> string list \<Rightarrow> string list \<Rightarrow> guild \<Rightarrow> channel list
   \<Rightarrow> walk_event list \<times> error option" where
  "categoriesLoop env cu bg bc g [] = ([], None)"
| "categoriesLoop env cu bg bc g (cat # rest) =
     (if chan_kind cat \<noteq> CategoryChannel then categoriesLoop env cu bg bc g rest
      else
        (case cu of
           None \<Rightarrow> ([], Some TypeError)
         | Some u \<Rightarrow>
            (if cu_id u \<in> set (chan_members cat) then
               (case childrenLoop env cu bg bc g cat False (children g cat) of
                  (tr, Some e) \<Rightarrow> (tr, Some e)
                | (tr, None) \<Rightarrow> after tr (categoriesLoop env cu bg bc g rest))
             else categoriesLoop env cu bg bc g rest)))"

definition iterateGuildStructure ::
  "walk_env \<Rightarrow> client_user option \<Rightarrow> int \<Rightarrow> guild \<Rightarrow> walk_event list \<times> error option" where
  "iterateGuildStructure env cu puppetId g =
     (case getBridgedGuilds env puppetId of
        Inl e \<Rightarrow> ([], Some e)
      | Inr bridgedGuilds \<Rightarrow>
         (case getBridgedChannels env puppetId of
            Inl e \<Rightarrow> ([], Some e)
          | Inr bridgedChannels \<Rightarrow>
             (case uncategorizedLoop env cu bridgedGuilds bridgedChannels g (guild_channels g) of
                (tr, Some e) \<Rightarrow> (tr, Some e)
              | (tr, None) \<Rightarrow>
                  after tr (categoriesLoop env cu bridgedGuilds bridgedChannels g
                              (guild_channels g)))))"

section \<open>Delivery: \<open>sendToDiscord\<close>\<close>

text \<open>
  The author of an embed. The embeds considered carry an author with a name (possibly the
  empty string) or no author at all.
\<close>

record embed_author =
  author_name :: string
  author_iconURL :: "string option"
  author_url :: "string option"

text \<open>
  \<open>Discord.MessageEmbed\<close>. \<open>emb_image\<close> is the image object, represented by its \<open>url\<close>;
  \<open>emb_fields\<close> are the (name, value) pairs in the order \<open>addField\<close> appended them.
\<close>

record message_embed =
  emb_title :: "string option"
  emb_description :: "string option"
  emb_image :: "string option"
  emb_author :: "embed_author option"
  emb_fields :: "(string \<times> string) list"

text \<open>\<open>IDiscordSendFile\<close>.\<close>

record send_file =
  file_buffer :: string
  file_filename :: string
  file_url :: string
  file_isImage :: bool

text \<open>The parameter \<open>msg: string | Discord.MessageEmbed | IDiscordSendFile\<close>.\<close>

datatype message = MsgString string | MsgEmbed message_embed | MsgFile send_file

text \<open>\<open>sendThing\<close>: a string, an embed, or a \<open>MessageAttachment(buffer, filename)\<close>.\<close>

datatype send_thing = SendString string | SendEmbed message_embed | SendAttachment string string

text \<open>\<open>ISendingUser\<close>, the fields the function reads.\<close>

record sending_user =
  su_displayname :: string
  su_avatarUrl :: "string option"
  su_mxid :: string

record webhook =
  hook_id :: string
  hook_name :: string

record hook_opts =
  opt_username :: string
  opt_avatarURL :: "string option"
  opt_embeds :: "message_embed list"
  opt_files :: "send_thing list"
  opt_split :: bool

text \<open>
  What the function does to the outside, in order: log lines, the webhook calls, the
  escape call (\<open>discordEscape\<close>, which awaits \<open>parseMatrixMessage\<close>) and the sends.
\<close>

datatype send_event =
    LogDebug string
  | LogWarn string error
  | FetchWebhooks
  | CreateWebhook string
  | Escape string
  | HookSend webhook "string option" hook_opts
  | ChanSend send_thing "message_embed option"

text \<open>
  The collaborators: the acting account \<open>chan.client.user\<close>, the webhook calls of the
  channel, the two sends and the markup parser behind \<open>discordEscape\<close>. Every awaited call
  may reject (\<open>Inl e\<close>). \<open>'m\<close> is what a send returns.
\<close>

record 'm send_env =
  acting_user :: "client_user option"
  fetchWebhooks :: "error + webhook list"
  createWebhook :: "string \<Rightarrow> error + webhook"
  hookSend :: "webhook \<Rightarrow> string option \<Rightarrow> hook_opts \<Rightarrow> error + 'm"
  chanSend :: "send_thing \<Rightarrow> message_embed option \<Rightarrow> error + 'm"
  parseMatrixMessage :: "string \<Rightarrow> error + string"

text \<open>Lines 66 to 71: \<open>sendThing\<close>.\<close>

definition makeSendThing :: "message \<Rightarrow> send_thing" where
  "makeSendThing msg =
     (case msg of
        MsgString s \<Rightarrow> SendString s
      | MsgEmbed e \<Rightarrow> SendEmbed e
      | MsgFile f \<Rightarrow> SendAttachment (file_buffer f) (file_filename f))"

text \<open>\<open>x || undefined\<close> on a nullable string.\<close>

definition orUndefined :: "string option \<Rightarrow> string option" where
  "orUndefined s = (if truthy_opt s then s else None)"

text \<open>\<open>replyEmbed && replyEmbed.description\<close>: the description when the test is truthy.\<close>

definition replyDescription :: "message_embed option \<Rightarrow> string option" where
  "replyDescription replyEmbed =
     (case replyEmbed of
        None \<Rightarrow> None
      | Some r \<Rightarrow> (if truthy_opt (emb_description r) then emb_description r else None))"

text \<open>
  Lines 83 to 97: look the webhook up, create it when it is missing. Both \<open>catch\<close> blocks
  log a warning and leave \<open>hook\<close> null, so the result carries no error.
\<close>

definition findHook :: "'m send_env \<Rightarrow> send_event list \<times> webhook option" where
  \<open>findHook env =
     (case fetchWebhooks env of
        Inl err \<Rightarrow> ([FetchWebhooks, LogWarn ''Missing webhook permissions'' err], None)
      | Inr hooks \<Rightarrow>
         (case find (\<lambda>h. hook_name h = ''_matrix'') hooks of
            Some h \<Rightarrow> ([FetchWebhooks], Some h)
          | None \<Rightarrow>
             (case createWebhook env ''_matrix'' of
                Inl err \<Rightarrow>
                  ([FetchWebhooks, CreateWebhook ''_matrix'',
                    LogWarn ''Unable to create "_matrix" webhook'' err], None)
              | Inr h \<Rightarrow> ([FetchWebhooks, CreateWebhook ''_matrix''], Some h))))\<close>

text \<open>Lines 99 to 113: the send through the webhook.\<close>

definition sendAsWebhook ::
  "'m send_env \<Rightarrow> webhook \<Rightarrow> send_thing \<Rightarrow> sending_user \<Rightarrow> message_embed option
   \<Rightarrow> send_event list \<times> (error + 'm)" where
  "sendAsWebhook env hook sendThing asUser replyEmbed =
     (let hookOpts =
            \<lparr>opt_username = su_displayname asUser,
             opt_avatarURL = orUndefined (su_avatarUrl asUser),
             opt_embeds = (case replyEmbed of Some r \<Rightarrow> [r] | None \<Rightarrow> []),
             opt_files = [],
             opt_split = True\<rparr>
      in case sendThing of
           SendString s \<Rightarrow>
             ([HookSend hook (Some s) hookOpts], hookSend env hook (Some s) hookOpts)
         | SendAttachment b f \<Rightarrow>
             (let opts = hookOpts\<lparr>opt_files := [SendAttachment b f]\<rparr>
              in ([HookSend hook None opts], hookSend env hook None opts))
         | SendEmbed e \<Rightarrow>
             (let opts = hookOpts\<lparr>opt_embeds := e # opt_embeds hookOpts\<rparr>
              in ([HookSend hook None opts], hookSend env hook None opts)))"

text \<open>\<open>new Discord.MessageEmbed()\<close>.\<close>

definition newEmbed :: message_embed where
  "newEmbed = \<lparr>emb_title = None, emb_description = None, emb_image = None,
               emb_author = None, emb_fields = []\<rparr>"

text \<open>
  The setters of the library's \<open>MessageEmbed\<close>, as the library has them. A string passes
  \<open>Util.resolveString\<close> unchanged; an absent value is rendered by \<open>String(...)\<close>, which
  gives the text \<open>undefined\<close>. \<open>addField\<close> raises a range error when the name or the
  value of the field is empty.
\<close>

definition resolveString :: "string option \<Rightarrow> string" where
  "resolveString s = (case s of None \<Rightarrow> ''undefined'' | Some t \<Rightarrow> t)"

definition setTitle :: "string option \<Rightarrow> message_embed \<Rightarrow> message_embed" where
  "setTitle t emb = emb\<lparr>emb_title := Some (resolveString t)\<rparr>"

definition setDescription :: "string \<Rightarrow> message_embed \<Rightarrow> message_embed" where
  "setDescription d emb = emb\<lparr>emb_description := Some (resolveString (Some d))\<rparr>"

definition setImage :: "string \<Rightarrow> message_embed \<Rightarrow> message_embed" where
  "setImage url emb = emb\<lparr>emb_image := Some url\<rparr>"

definition setAuthor ::
  "string \<Rightarrow> string option \<Rightarrow> string option \<Rightarrow> message_embed \<Rightarrow> message_embed" where
  "setAuthor name iconURL url emb =
     emb\<lparr>emb_author := Some \<lparr>author_name = resolveString (Some name),
                               author_iconURL = iconURL, author_url = url\<rparr>\<rparr>"

definition addField :: "string \<Rightarrow> string \<Rightarrow> message_embed \<Rightarrow> error + message_embed" where
  "addField name v emb =
     (if name = [] then Inl RangeError
      else if v = [] then Inl RangeError
      else Inr (emb\<lparr>emb_fields := emb_fields emb @ [(name, v)]\<rparr>))"

text \<open>Lines 121 to 135: the embed built from the payload.\<close>

definition embedBody ::
  "'m send_env \<Rightarrow> message \<Rightarrow> send_event list \<times> (error + message_embed)" where
  "embedBody env msg =
     (case msg of
        MsgString s \<Rightarrow> ([], Inr (setDescription s newEmbed))
      | MsgEmbed m \<Rightarrow>
         (case emb_image m of
            Some url \<Rightarrow> ([], Inr (setImage url (setTitle (emb_title m) newEmbed)))
          | None \<Rightarrow> ([], Inr newEmbed))
      | MsgFile f \<Rightarrow>
         (if file_isImage f then
            ([], Inr (setImage (file_url f) (setTitle (Some (file_filename f)) newEmbed)))
          else
            (case parseMatrixMessage env (file_filename f) of
               Inl e \<Rightarrow> ([Escape (file_filename f)], Inl e)
             | Inr filename \<Rightarrow>
                 ([Escape (file_filename f)],
                  Inr (setDescription
                         (''Uploaded a file `'' @ filename @ ''`: '' @ file_url f) newEmbed)))))"

text \<open>
  Lines 136 to 139: the two reply fields. \<open>replyEmbed.author!.name\<close> on an embed without
  author reads a property of null; \<open>addField\<close> raises when that name is empty.
\<close>

definition embedReply :: "message_embed \<Rightarrow> message_embed option \<Rightarrow> error + message_embed" where
  "embedReply emb replyEmbed =
     (case replyDescription replyEmbed of
        None \<Rightarrow> Inr emb
      | Some d \<Rightarrow>
         (case emb_author (the replyEmbed) of
            None \<Rightarrow> Inl TypeError
          | Some a \<Rightarrow>
             (case addField ''Replying to'' (author_name a) emb of
                Inl e \<Rightarrow> Inl e
              | Inr emb1 \<Rightarrow> addField ''Reply text'' d emb1)))"

text \<open>Lines 120 to 141: the send as an embed.\<close>

definition sendAsEmbed ::
  "'m send_env \<Rightarrow> message \<Rightarrow> sending_user \<Rightarrow> message_embed option
   \<Rightarrow> send_event list \<times> (error + 'm)" where
  "sendAsEmbed env msg asUser replyEmbed =
     (case embedBody env msg of
        (tr, Inl e) \<Rightarrow> (tr, Inl e)
      | (tr, Inr emb) \<Rightarrow>
         (case embedReply emb replyEmbed of
            Inl e \<Rightarrow> (tr, Inl e)
          | Inr emb2 \<Rightarrow>
             (let emb3 = setAuthor (su_displayname asUser) (orUndefined (su_avatarUrl asUser))
                           (Some (''https://matrix.to/#/'' @ su_mxid asUser)) emb2
              in (tr @ [ChanSend (SendEmbed emb3) None], chanSend env (SendEmbed emb3) None))))"

text \<open>
  Lines 146 to 161: \<open>sendMsg\<close> built from the payload and the escaped display name. The
  template \<open>${msg.image}\<close> renders the image object, not its url.
\<close>

definition prefixedBody ::
  "'m send_env \<Rightarrow> string \<Rightarrow> message \<Rightarrow> send_event list \<times> (error + string)" where
  "prefixedBody env displayname msg =
     (case msg of
        MsgString s \<Rightarrow> ([], Inr (''**'' @ displayname @ ''**: '' @ s))
      | MsgEmbed m \<Rightarrow>
         (case emb_image m of
            None \<Rightarrow> ([], Inr [])
          | Some url \<Rightarrow>
             (if truthy_opt (emb_title m) then
                (case parseMatrixMessage env (the (emb_title m)) of
                   Inl e \<Rightarrow> ([Escape (the (emb_title m))], Inl e)
                 | Inr filename \<Rightarrow>
                     ([Escape (the (emb_title m))],
                      Inr (''**'' @ displayname @ ''** uploaded a file `'' @ filename @ ''`: ''
                           @ ''[object Object]'')))
              else ([], Inr (''**'' @ displayname @ ''** uploaded a file: '' @ ''[object Object]''))))
      | MsgFile f \<Rightarrow>
         (case parseMatrixMessage env (file_filename f) of
            Inl e \<Rightarrow> ([Escape (file_filename f)], Inl e)
          | Inr filename \<Rightarrow>
              ([Escape (file_filename f)],
               Inr (''**'' @ displayname @ ''** uploaded a file `'' @ filename @ ''`: ''
                    @ file_url f))))"

text \<open>Lines 162 to 164: the block-quoted reply suffix.\<close>

definition replySuffix :: "message_embed option \<Rightarrow> string" where
  "replySuffix replyEmbed =
     (case replyDescription replyEmbed of
        None \<Rightarrow> []
      | Some d \<Rightarrow> [CHR 0x0A] @ ''>>> '' @ d)"

text \<open>Lines 144 to 165: the send as prefixed plain text.\<close>

definition sendPrefixed ::
  "'m send_env \<Rightarrow> message \<Rightarrow> sending_user \<Rightarrow> message_embed option
   \<Rightarrow> send_event list \<times> (error + 'm)" where
  "sendPrefixed env msg asUser replyEmbed =
     (case parseMatrixMessage env (su_displayname asUser) of
        Inl e \<Rightarrow> ([Escape (su_displayname asUser)], Inl e)
      | Inr displayname \<Rightarrow>
         (case prefixedBody env displayname msg of
            (tr, Inl e) \<Rightarrow> (Escape (su_displayname asUser) # tr, Inl e)
          | (tr, Inr sendMsg) \<Rightarrow>
             (let sendMsg2 = sendMsg @ replySuffix replyEmbed
              in (Escape (su_displayname asUser) # tr @ [ChanSend (SendString sendMsg2) None],
                  chanSend env (SendString sendMsg2) None))))"

text \<open>Lines 72 to 79: no relay.\<close>

definition sendDirect ::
  "'m send_env \<Rightarrow> send_thing \<Rightarrow> message_embed option \<Rightarrow> send_event list \<times> (error + 'm)" where
  "sendDirect env sendThing replyEmbed =
     emit (LogDebug ''Not in relay mode, just sending as user'')
       (case replyEmbed of
          None \<Rightarrow> ([ChanSend sendThing None], chanSend env sendThing None)
        | Some r \<Rightarrow>
           (case acting_user env of
              None \<Rightarrow> ([], Inl TypeError)
            | Some cu \<Rightarrow>
               (if cu_bot cu then ([ChanSend sendThing (Some r)], chanSend env sendThing (Some r))
                else ([ChanSend sendThing None], chanSend env sendThing None))))"

text \<open>Lines 117 to 165: what follows the webhook attempt when no hook was obtained.\<close>

definition sendWithoutHook ::
  "'m send_env \<Rightarrow> message \<Rightarrow> sending_user \<Rightarrow> message_embed option
   \<Rightarrow> send_event list \<times> (error + 'm)" where
  "sendWithoutHook env msg asUser replyEmbed =
     (case acting_user env of
        None \<Rightarrow> ([], Inl TypeError)
      | Some cu \<Rightarrow>
         (if cu_bot cu then
            emit (LogDebug ''Trying to send as embed...'') (sendAsEmbed env msg asUser replyEmbed)
          else
            emit (LogDebug ''Prepending sender information to send the message out...'')
              (sendPrefixed env msg asUser replyEmbed)))"

definition sendToDiscord ::
  "'m send_env \<Rightarrow> channel \<Rightarrow> message \<Rightarrow> sending_user option \<Rightarrow> message_embed option
   \<Rightarrow> send_event list \<times> (error + 'm)" where
  "sendToDiscord env chan msg asUser replyEmbed =
     emit (LogDebug ''Sending something to discord...'')
       (let sendThing = makeSendThing msg in
        case asUser of
          None \<Rightarrow> sendDirect env sendThing replyEmbed
        | Some u \<Rightarrow>
           (if chan_kind chan = TextChannel then
              emit (LogDebug ''Trying to send as webhook...'')
                (case findHook env of
                   (tr, Some hook) \<Rightarrow> after tr (sendAsWebhook env hook sendThing u replyEmbed)
                 | (tr, None) \<Rightarrow>
                     after (tr @ [LogDebug ''Couldn't send as webhook''])
                       (sendWithoutHook env msg u replyEmbed))
            else sendWithoutHook env msg u replyEmbed))"

section \<open>Reading a delivery trace\<close>

text \<open>The warnings, the send attempts and the arguments of the escape calls of a trace.\<close>

fun isWarn :: "send_event \<Rightarrow> bool" where
  "isWarn (LogWarn m e) = True"
| "isWarn ev = False"

fun isSend :: "send_event \<Rightarrow> bool" where
  "isSend (HookSend h c opts) = True"
| "isSend (ChanSend t r) = True"
| "isSend ev = False"

fun escapeCalls :: "send_event list \<Rightarrow> string list" where
  "escapeCalls [] = []"
| "escapeCalls (Escape s # evs) = s # escapeCalls evs"
| "escapeCalls (ev # evs) = escapeCalls evs"

text \<open>
  The error, if any, with which the collaborator answers the call that an event records.
\<close>

fun failedCall :: "'m send_env \<Rightarrow> send_event \<Rightarrow> error option" where
  "failedCall env (ChanSend t r) = (case chanSend env t r of Inl e \<Rightarrow> Some e | Inr m \<Rightarrow> None)"
| "failedCall env (HookSend h c opts) =
     (case hookSend env h c opts of Inl e \<Rightarrow> Some e | Inr m \<Rightarrow> None)"
| "failedCall env (Escape s) =
     (case parseMatrixMessage env s of Inl e \<Rightarrow> Some e | Inr t \<Rightarrow> None)"
| "failedCall env ev = None"

section \<open>Reading a walk\<close>

text \<open>
  The test of lines 290 to 293 that a channel must pass for \<open>chanCallback\<close>: bridged
  (its guild or itself), a text channel, and visible to the acting account \<open>uid\<close>.
\<close>

definition qualifies :: "string list \<Rightarrow> string list \<Rightarrow> guild \<Rightarrow> string \<Rightarrow> channel \<Rightarrow> bool" where
  "qualifies bg bc g uid chan =
     (\<not> notBridged bg bc g chan \<and> chan_kind chan = TextChannel
      \<and> uid \<in> set (chan_members chan))"

text \<open>
  The calls of a walk in which no callback rejects, written as lists: the first loop, the
  children of one category (with the flag \<open>doCat\<close>), and the second loop.
\<close>

definition uncategorizedCalls ::
  "string list \<Rightarrow> string list \<Rightarrow> guild \<Rightarrow> string \<Rightarrow> channel list \<Rightarrow> walk_event list" where
  "uncategorizedCalls bg bc g uid chans =
     map OnChannel
       (filter (\<lambda>c. qualifies bg bc g uid c \<and> \<not> truthy_opt (chan_parentID c)) chans)"

definition childrenCalls ::
  "string list \<Rightarrow> string list \<Rightarrow> guild \<Rightarrow> string \<Rightarrow> channel \<Rightarrow> bool \<Rightarrow> channel list
   \<Rightarrow> walk_event list" where
  "childrenCalls bg bc g uid cat doCat chans =
     (case filter (qualifies bg bc g uid) chans of
        [] \<Rightarrow> []
      | q # qs \<Rightarrow> (if doCat then [] else [OnCategory cat]) @ map OnChannel (q # qs))"

definition categoriesCalls ::
  "string list \<Rightarrow> string list \<Rightarrow> guild \<Rightarrow> string \<Rightarrow> channel list \<Rightarrow> walk_event list" where
  "categoriesCalls bg bc g uid cats =
     concat (map (\<lambda>cat. if chan_kind cat = CategoryChannel \<and> uid \<in> set (chan_members cat)
                          then childrenCalls bg bc g uid cat False (children g cat)
                          else []) cats)"

section \<open>Concrete inputs\<close>

text \<open>A presence environment whose setters never reject; the remote user is the user id.\<close>

definition quietPresenceEnv :: presence_env where
  "quietPresenceEnv =
     \<lparr>has_puppet = (\<lambda>_. True), getRemoteUser = (\<lambda>_ u. u),
      setUserPresence = (\<lambda>_ _. None), setUserStatus = (\<lambda>_ _. None)\<rparr>"

definition playingChess :: activity where
  "playingChess =
     \<lparr>act_type = ''PLAYING'', act_name = ''Chess'', act_emoji = None, act_state = None\<rparr>"

definition listeningRadio :: activity where
  "listeningRadio =
     \<lparr>act_type = ''LISTENING'', act_name = ''Radio'', act_emoji = None, act_state = None\<rparr>"

definition blankCustom :: activity where
  "blankCustom =
     \<lparr>act_type = ''CUSTOM_STATUS'', act_name = ''Custom Status'', act_emoji = None,
      act_state = None\<rparr>"

text \<open>
  A client in no guild and without friends, whose direct fetch rejects (the remote answers
  that it knows no such user); opening a direct-message channel succeeds.
\<close>

definition lonelyClient :: client where
  "lonelyClient =
     \<lparr>client_channels = [], client_guilds = [],
      client_user = Some \<lparr>cu_id = ''me'', cu_bot = False, cu_friends = []\<rparr>,
      users_fetch = (\<lambda>_. Inl (ApiError ''Unknown User'')),
      createDM = (\<lambda>u. Inr \<lparr>chan_id = ''dm-of-'' @ user_id u, chan_kind = DMChannel,
                              chan_parentID = None, chan_members = []\<rparr>)\<rparr>"

definition bob :: user where
  "bob = \<lparr>user_id = ''42'', username = ''bob''\<rparr>"

text \<open>The same client with one friend, and a fetch that completes without a user.\<close>

definition friendlyClient :: client where
  "friendlyClient =
     lonelyClient\<lparr>client_user := Some \<lparr>cu_id = ''me'', cu_bot = False, cu_friends = [bob]\<rparr>,
                  users_fetch := (\<lambda>_. Inr None)\<rparr>"

text \<open>
  A stand-in for the markup parser behind \<open>discordEscape\<close>: a backslash in front of every
  underscore and asterisk.
\<close>

definition backslashEscape :: "string \<Rightarrow> string" where
  "backslashEscape s =
     concat (map (\<lambda>c. if c = CHR ''_'' \<or> c = CHR ''*'' then [CHR 0x5C, c] else [c]) s)"

definition matrixHook :: webhook where
  "matrixHook = \<lparr>hook_id = ''h1'', hook_name = ''_matrix''\<rparr>"

text \<open>
  A bot account on a channel where listing webhooks is denied; every send succeeds (a
  webhook send returns 1, a channel send 2).
\<close>

definition deniedBotEnv :: "nat send_env" where
  "deniedBotEnv =
     \<lparr>acting_user = Some \<lparr>cu_id = ''me'', cu_bot = True, cu_friends = []\<rparr>,
      fetchWebhooks = Inl (ApiError ''Missing Permissions''),
      createWebhook = (\<lambda>_. Inl (ApiError ''Missing Permissions'')),
      hookSend = (\<lambda>_ _ _. Inr 1),
      chanSend = (\<lambda>_ _. Inr 2),
      parseMatrixMessage = (\<lambda>s. Inr (backslashEscape s))\<rparr>"

text \<open>The same with a user (non-bot) account.\<close>

definition deniedUserEnv :: "nat send_env" where
  "deniedUserEnv =
     deniedBotEnv\<lparr>acting_user := Some \<lparr>cu_id = ''me'', cu_bot = False, cu_friends = []\<rparr>\<rparr>"

text \<open>A bot account on a channel that has the webhook; sends succeed.\<close>

definition hookEnv :: "nat send_env" where
  "hookEnv = deniedBotEnv\<lparr>fetchWebhooks := Inr [matrixHook]\<rparr>"

text \<open>The same, but the send through the webhook rejects.\<close>

definition brokenHookEnv :: "nat send_env" where
  "brokenHookEnv = hookEnv\<lparr>hookSend := (\<lambda>_ _ _. Inl (ApiError ''Unknown Webhook''))\<rparr>"

definition textChan :: channel where
  "textChan = \<lparr>chan_id = ''c1'', chan_kind = TextChannel, chan_parentID = None,
               chan_members = [''me'']\<rparr>"

definition dmChan :: channel where
  "dmChan = \<lparr>chan_id = ''d1'', chan_kind = DMChannel, chan_parentID = None,
             chan_members = []\<rparr>"

definition alice :: sending_user where
  "alice = \<lparr>su_displayname = ''a_b'', su_avatarUrl = None, su_mxid = ''@a:hs''\<rparr>"

definition quoted :: message_embed where
  "quoted = newEmbed\<lparr>emb_description := Some ''earlier'',
                     emb_author := Some \<lparr>author_name = ''carol'', author_iconURL = None,
                                           author_url = None\<rparr>\<rparr>"

definition report :: send_file where
  "report = \<lparr>file_buffer = ''bytes'', file_filename = ''my_file.txt'',
              file_url = ''https://hs/f'', file_isImage = False\<rparr>"

text \<open>
  A guild that is bridged as a whole. \<open>lobby\<close> lies outside any category; category
  \<open>talk\<close> is visible and has a voice channel and two text channels; category \<open>staff\<close>
  is hidden from the acting account \<open>me\<close>, but its text channel \<open>mods\<close> is visible;
  category \<open>attic\<close> is visible and its only text channel is not.
\<close>

definition lobby :: channel where
  "lobby = \<lparr>chan_id = ''1'', chan_kind = TextChannel, chan_parentID = None,
            chan_members = [''me'', ''x'']\<rparr>"

definition talk :: channel where
  "talk = \<lparr>chan_id = ''2'', chan_kind = CategoryChannel, chan_parentID = None,
           chan_members = [''me'']\<rparr>"

definition voice :: channel where
  "voice = \<lparr>chan_id = ''3'', chan_kind = OtherChannel, chan_parentID = Some ''2'',
            chan_members = [''me'']\<rparr>"

definition rules :: channel where
  "rules = \<lparr>chan_id = ''4'', chan_kind = TextChannel, chan_parentID = Some ''2'',
            chan_members = [''me'']\<rparr>"

definition chat :: channel where
  "chat = \<lparr>chan_id = ''5'', chan_kind = TextChannel, chan_parentID = Some ''2'',
           chan_members = [''x'', ''me'']\<rparr>"

definition staff :: channel where
  "staff = \<lparr>chan_id = ''6'', chan_kind = CategoryChannel, chan_parentID = None,
            chan_members = [''x'']\<rparr>"

definition mods :: channel where
  "mods = \<lparr>chan_id = ''7'', chan_kind = TextChannel, chan_parentID = Some ''6'',
           chan_members = [''me'', ''x'']\<rparr>"

definition attic :: channel where
  "attic = \<lparr>chan_id = ''8'', chan_kind = CategoryChannel, chan_parentID = None,
            chan_members = [''me'']\<rparr>"

definition dust :: channel where
  "dust = \<lparr>chan_id = ''9'', chan_kind = TextChannel, chan_parentID = Some ''8'',
           chan_members = [''x'']\<rparr>"

definition demoGuild :: guild where
  "demoGuild =
     \<lparr>guild_id = ''g1'',
      guild_channels = [talk, voice, lobby, rules, staff, mods, chat, attic, dust],
      guild_members = []\<rparr>"

definition me :: client_user where
  "me = \<lparr>cu_id = ''me'', cu_bot = True, cu_friends = []\<rparr>"

text \<open>The store lists the guild as bridged; no callback rejects.\<close>

definition walkEnv :: walk_env where
  "walkEnv =
     \<lparr>getBridgedGuilds = (\<lambda>_. Inr [''g1'']),
      getBridgedChannels = (\<lambda>_. Inr []),
      catCallback = (\<lambda>_. None),
      chanCallback = (\<lambda>_. None)\<rparr>"

section \<open>Auxiliary facts\<close>

lemma find_SomeD: "find P xs = Some x \<Longrightarrow> P x \<and> x \<in> set xs"
  by (induction xs) (auto split: if_splits)

lemma findGuildMember_None:
  "findGuildMember gs i = None
   \<longleftrightarrow> (\<forall>g\<in>set gs. \<forall>m\<in>set (guild_members g). user_id m \<noteq> i)"
  by (induction gs) (auto simp: find_None_iff split: option.splits dest: find_SomeD)

lemma fst_emit [simp]: "fst (emit e m) = e # fst m"
  and snd_emit [simp]: "snd (emit e m) = snd m"
  and fst_after [simp]: "fst (after t m) = t @ fst m"
  and snd_after [simp]: "snd (after t m) = snd m"
  by (simp_all add: emit_def after_def)

subsection \<open>Delivery: the webhook lookup\<close>

lemma findHook_denied:
  assumes "fetchWebhooks env = Inl e
           \<or> (\<exists>hs. fetchWebhooks env = Inr hs \<and> find (\<lambda>h. hook_name h = ''_matrix'') hs = None
                  \<and> createWebhook env ''_matrix'' = Inl e)"
  shows "snd (findHook env) = None \<and> length (filter isWarn (fst (findHook env))) = 1
         \<and> filter isSend (fst (findHook env)) = []"
  using assms by (auto simp: findHook_def)

lemma findHook_unavailable:
  assumes "(\<exists>e. fetchWebhooks env = Inl e)
           \<or> (\<exists>hs e. fetchWebhooks env = Inr hs \<and> find (\<lambda>h. hook_name h = ''_matrix'') hs = None
                  \<and> createWebhook env ''_matrix'' = Inl e)"
  shows "snd (findHook env) = None"
  using assms by (auto simp: findHook_def)

lemma findHook_obtained:
  assumes "fetchWebhooks env = Inr hs"
      and "find (\<lambda>h. hook_name h = ''_matrix'') hs = Some h
           \<or> (find (\<lambda>h. hook_name h = ''_matrix'') hs = None
              \<and> createWebhook env ''_matrix'' = Inr h)"
  shows "snd (findHook env) = Some h"
  using assms by (auto simp: findHook_def)

lemma findHook_quiet:
  "filter isSend (fst (findHook env)) = [] \<and> escapeCalls (fst (findHook env)) = []"
  by (auto simp: findHook_def split: sum.splits option.splits)

lemma escapeCalls_findHook: "escapeCalls (fst (findHook env)) = []"
  using findHook_quiet by blast

lemma escapeCalls_append: "escapeCalls (xs @ ys) = escapeCalls xs @ escapeCalls ys"
  by (induction xs rule: escapeCalls.induct) auto

lemma escapeCalls_mem: "s \<in> set (escapeCalls tr) \<longleftrightarrow> Escape s \<in> set tr"
  by (induction tr rule: escapeCalls.induct) auto

subsection \<open>Delivery: which mechanism runs\<close>

text \<open>
  Every run of \<open>sendToDiscord\<close> is one mechanism after a prefix of the trace that holds
  neither a send nor an escape call.
\<close>

lemma direct_run:
  "\<exists>pre. filter isSend pre = [] \<and> escapeCalls pre = []
         \<and> sendToDiscord env chan msg None r = after pre (sendDirect env (makeSendThing msg) r)"
  by (intro exI [of _ "[LogDebug ''Sending something to discord...'']"])
     (simp add: sendToDiscord_def emit_def after_def)

lemma relay_without_hook:
  assumes "chan_kind chan \<noteq> TextChannel \<or> snd (findHook env) = None"
  shows "\<exists>pre. filter isSend pre = [] \<and> escapeCalls pre = []
           \<and> sendToDiscord env chan msg (Some u) r = after pre (sendWithoutHook env msg u r)"
proof (cases "chan_kind chan = TextChannel")
  case False
  then have "sendToDiscord env chan msg (Some u) r
              = after [LogDebug ''Sending something to discord...''] (sendWithoutHook env msg u r)"
    by (simp add: sendToDiscord_def emit_def after_def)
  then show ?thesis 
    by (intro exI [of _ "[LogDebug ''Sending something to discord...'']"]) simp
next
  case True
  with assms obtain tr where fh: "findHook env = (tr, None)" by (cases "findHook env") auto
  have q: "filter isSend tr = [] \<and> escapeCalls tr = []" using findHook_quiet [of env] fh by simp
  have "sendToDiscord env chan msg (Some u) r
          = after (LogDebug ''Sending something to discord...''
                   # LogDebug ''Trying to send as webhook...''
                   # tr @ [LogDebug ''Couldn't send as webhook''])
              (sendWithoutHook env msg u r)"
    using True fh by (simp add: sendToDiscord_def emit_def after_def)
  then show ?thesis
    using q
    by (intro exI [of _ "LogDebug ''Sending something to discord...''
                   # LogDebug ''Trying to send as webhook...''
                   # tr @ [LogDebug ''Couldn't send as webhook'']"])
       (simp add: escapeCalls_append)
qed

lemma relay_with_hook:
  assumes "chan_kind chan = TextChannel" and "findHook env = (tr, Some h)"
  shows "\<exists>pre. filter isSend pre = [] \<and> escapeCalls pre = []
           \<and> sendToDiscord env chan msg (Some u) r
               = after pre (sendAsWebhook env h (makeSendThing msg) u r)"
proof -
  have q: "filter isSend tr = [] \<and> escapeCalls tr = []"
    using findHook_quiet [of env] assms(2) by simp
  have "sendToDiscord env chan msg (Some u) r
          = after (LogDebug ''Sending something to discord...''
                   # LogDebug ''Trying to send as webhook...'' # tr)
              (sendAsWebhook env h (makeSendThing msg) u r)"
    using assms by (simp add: sendToDiscord_def emit_def after_def Let_def)
  then show ?thesis
    using q
    by (intro exI [of _ "LogDebug ''Sending something to discord...''
                   # LogDebug ''Trying to send as webhook...'' # tr"]) simp
qed

lemma after_quiet:
  assumes "filter isSend pre = []" and "escapeCalls pre = []"
      and "ev \<in> set (fst (after pre m))" and "isSend ev"
  shows "ev \<in> set (fst m) \<and> escapeCalls (fst (after pre m)) = escapeCalls (fst m)"
  using assms by (auto simp: escapeCalls_append filter_empty_conv)

lemma after_sends:
  assumes "filter isSend pre = []"
  shows "filter isSend (fst (after pre m)) = filter isSend (fst m)"
  using assms by simp

lemma sendWithoutHook_bot:
  assumes "acting_user env = Some cu" and "cu_bot cu"
  shows "sendWithoutHook env msg u r
           = after [LogDebug ''Trying to send as embed...''] (sendAsEmbed env msg u r)"
  using assms by (simp add: sendWithoutHook_def emit_def after_def)

lemma sendWithoutHook_user:
  assumes "acting_user env = Some cu" and "\<not> cu_bot cu"
  shows "sendWithoutHook env msg u r
           = after [LogDebug ''Prepending sender information to send the message out...'']
               (sendPrefixed env msg u r)"
  using assms by (simp add: sendWithoutHook_def emit_def after_def)

lemma sendWithoutHook_null:
  assumes "acting_user env = None"
  shows "sendWithoutHook env msg u r = ([], Inl TypeError)"
  using assms by (simp add: sendWithoutHook_def)

subsection \<open>Delivery: the message each mechanism sends\<close>

lemma replyDescription_cases:
  "replyDescription r =
     (case r of None \<Rightarrow> None
      | Some rp \<Rightarrow> (case emb_description rp of None \<Rightarrow> None
           | Some d \<Rightarrow> if d = [] then None else Some d))"
  by (simp add: replyDescription_def truthy_opt_def truthy_def split: option.splits)

lemma replySuffix_cases:
  "replySuffix r = (case r of None \<Rightarrow> []
      | Some rp \<Rightarrow> (case emb_description rp of None \<Rightarrow> []
           | Some d \<Rightarrow> if d = [] then [] else CHR 0x0A # ''>>> '' @ d))"
  by (simp add: replySuffix_def replyDescription_def truthy_opt_def truthy_def
           split: option.splits)

lemma orUndefined_cases:
  "orUndefined s = (case s of None \<Rightarrow> None | Some a \<Rightarrow> if a = [] then None else Some a)"
  by (simp add: orUndefined_def truthy_opt_def truthy_def split: option.splits)

lemma makeSendThing_cases:
  "makeSendThing msg =
     (case msg of MsgString s \<Rightarrow> SendString s | MsgEmbed m \<Rightarrow> SendEmbed m
      | MsgFile f \<Rightarrow> SendAttachment (file_buffer f) (file_filename f))"
  by (simp add: makeSendThing_def)

lemma sendDirect_cases:
  "sendDirect env st r =
     (case r of
        None \<Rightarrow> ([LogDebug ''Not in relay mode, just sending as user'', ChanSend st None],
                 chanSend env st None)
      | Some rp \<Rightarrow>
         (case acting_user env of
            None \<Rightarrow> ([LogDebug ''Not in relay mode, just sending as user''], Inl TypeError)
          | Some cu \<Rightarrow>
             (if cu_bot cu
              then ([LogDebug ''Not in relay mode, just sending as user'', ChanSend st (Some rp)],
                    chanSend env st (Some rp))
              else ([LogDebug ''Not in relay mode, just sending as user'', ChanSend st None],
                    chanSend env st None))))"
  by (simp add: sendDirect_def emit_def split: option.splits)

lemma sendAsWebhook_cases:
  "sendAsWebhook env h (makeSendThing msg) u r =
     ([HookSend h (case msg of MsgString s \<Rightarrow> Some s | MsgEmbed m \<Rightarrow> None | MsgFile f \<Rightarrow> None)
         \<lparr>opt_username = su_displayname u,
          opt_avatarURL = (case su_avatarUrl u of None \<Rightarrow> None
                           | Some a \<Rightarrow> if a = [] then None else Some a),
          opt_embeds = (case msg of MsgString s \<Rightarrow> [] | MsgEmbed m \<Rightarrow> [m] | MsgFile f \<Rightarrow> [])
                       @ (case r of None \<Rightarrow> [] | Some rp \<Rightarrow> [rp]),
          opt_files = (case msg of MsgString s \<Rightarrow> [] | MsgEmbed m \<Rightarrow> []
                       | MsgFile f \<Rightarrow> [SendAttachment (file_buffer f) (file_filename f)]),
          opt_split = True\<rparr>],
      hookSend env h (case msg of MsgString s \<Rightarrow> Some s | MsgEmbed m \<Rightarrow> None | MsgFile f \<Rightarrow> None)
         \<lparr>opt_username = su_displayname u,
          opt_avatarURL = (case su_avatarUrl u of None \<Rightarrow> None
                           | Some a \<Rightarrow> if a = [] then None else Some a),
          opt_embeds = (case msg of MsgString s \<Rightarrow> [] | MsgEmbed m \<Rightarrow> [m] | MsgFile f \<Rightarrow> [])
                       @ (case r of None \<Rightarrow> [] | Some rp \<Rightarrow> [rp]),
          opt_files = (case msg of MsgString s \<Rightarrow> [] | MsgEmbed m \<Rightarrow> []
                       | MsgFile f \<Rightarrow> [SendAttachment (file_buffer f) (file_filename f)]),
          opt_split = True\<rparr>)"
  by (cases msg)
     (simp_all add: sendAsWebhook_def makeSendThing_def orUndefined_cases Let_def
               split: option.splits)

lemma sendAsWebhook_shape:
  "\<exists>c opts. sendAsWebhook env h st u r = ([HookSend h c opts], hookSend env h c opts)
       \<and> opt_username opts = su_displayname u
       \<and> (\<forall>b f. st = SendAttachment b f \<longrightarrow> opt_files opts = [SendAttachment b f])"
  by (cases st) (simp_all add: sendAsWebhook_def Let_def)

lemma embedReply_cases:
  "embedReply emb r =
     (case r of
        None \<Rightarrow> Inr emb
      | Some rp \<Rightarrow>
         (case emb_description rp of
            None \<Rightarrow> Inr emb
          | Some d \<Rightarrow>
             if d = [] then Inr emb
             else (case emb_author rp of
                     None \<Rightarrow> Inl TypeError
                   | Some a \<Rightarrow>
                       if author_name a = [] then Inl RangeError
                       else Inr (emb\<lparr>emb_fields := emb_fields emb
                                   @ [(''Replying to'', author_name a), (''Reply text'', d)]\<rparr>))))"
  by (simp add: embedReply_def replyDescription_cases addField_def split: option.splits)

lemma embedBody_quiet:
  "filter isWarn (fst (embedBody env msg)) = [] \<and> filter isSend (fst (embedBody env msg)) = []"
  by (auto simp: embedBody_def split: message.splits option.splits sum.splits)

lemma embedBody_shape:
  assumes "embedBody env msg = (tr, Inr emb)"
  shows "emb_fields emb = [] \<and> emb_author emb = None \<and>
         (case msg of
            MsgString s \<Rightarrow> tr = [] \<and> emb_title emb = None \<and> emb_description emb = Some s
                           \<and> emb_image emb = None
          | MsgEmbed m \<Rightarrow>
             (case emb_image m of
                None \<Rightarrow> tr = [] \<and> emb_title emb = None \<and> emb_description emb = None
                        \<and> emb_image emb = None
              | Some url \<Rightarrow>
                  tr = []
                  \<and> emb_title emb = Some (case emb_title m of None \<Rightarrow> ''undefined'' | Some t \<Rightarrow> t)
                  \<and> emb_description emb = None \<and> emb_image emb = Some url)
          | MsgFile f \<Rightarrow>
              if file_isImage f
              then tr = [] \<and> emb_title emb = Some (file_filename f) \<and> emb_description emb = None
                   \<and> emb_image emb = Some (file_url f)
              else tr = [Escape (file_filename f)] \<and> emb_title emb = None \<and> emb_image emb = None
                   \<and> (\<exists>fn. parseMatrixMessage env (file_filename f) = Inr fn
                        \<and> emb_description emb
                            = Some (''Uploaded a file `'' @ fn @ ''`: '' @ file_url f)))"
  using assms
  by (auto simp: embedBody_def newEmbed_def setTitle_def setDescription_def setImage_def
                 resolveString_def
           split: message.splits option.splits sum.splits if_splits)

lemma embedBody_failed:
  assumes "embedBody env msg = (tr, Inl e)"
  shows "\<exists>f. msg = MsgFile f \<and> \<not> file_isImage f \<and> tr = [Escape (file_filename f)]
             \<and> parseMatrixMessage env (file_filename f) = Inl e"
  using assms
  by (auto simp: embedBody_def split: message.splits option.splits sum.splits if_splits)

text \<open>The embed relay: what it sends, and why it may send nothing.\<close>

lemma sendAsEmbed_sent:
  assumes "ev \<in> set (fst (sendAsEmbed env msg u r))" and "isSend ev"
  shows "\<exists>emb. ev = ChanSend (SendEmbed emb) None
           \<and> snd (sendAsEmbed env msg u r) = chanSend env (SendEmbed emb) None
           \<and> emb_author emb
               = Some \<lparr>author_name = su_displayname u,
                       author_iconURL = (case su_avatarUrl u of None \<Rightarrow> None
                                         | Some a \<Rightarrow> if a = [] then None else Some a),
                       author_url = Some (''https://matrix.to/#/'' @ su_mxid u)\<rparr>
           \<and> (case r of
                 None \<Rightarrow> emb_fields emb = []
               | Some rp \<Rightarrow>
                  (case emb_description rp of
                     None \<Rightarrow> emb_fields emb = []
                   | Some d \<Rightarrow>
                      if d = [] then emb_fields emb = []
                      else (\<exists>a. emb_author rp = Some a \<and> author_name a \<noteq> []
                              \<and> emb_fields emb
                                  = [(''Replying to'', author_name a), (''Reply text'', d)])))
           \<and> (case msg of
                 MsgString s \<Rightarrow>
                   escapeCalls (fst (sendAsEmbed env msg u r)) = []
                   \<and> emb_title emb = None \<and> emb_description emb = Some s
                   \<and> emb_image emb = None
               | MsgEmbed m \<Rightarrow>
                  (case emb_image m of
                     None \<Rightarrow>
                       escapeCalls (fst (sendAsEmbed env msg u r)) = []
                       \<and> emb_title emb = None \<and> emb_description emb = None
                       \<and> emb_image emb = None
                   | Some url \<Rightarrow>
                       escapeCalls (fst (sendAsEmbed env msg u r)) = []
                       \<and> emb_title emb
                           = Some (case emb_title m of None \<Rightarrow> ''undefined'' | Some t \<Rightarrow> t)
                       \<and> emb_description emb = None \<and> emb_image emb = Some url)
               | MsgFile f \<Rightarrow>
                  if file_isImage f
                  then escapeCalls (fst (sendAsEmbed env msg u r)) = []
                       \<and> emb_title emb = Some (file_filename f) \<and> emb_description emb = None
                       \<and> emb_image emb = Some (file_url f)
                  else escapeCalls (fst (sendAsEmbed env msg u r)) = [file_filename f]
                       \<and> emb_title emb = None \<and> emb_image emb = None
                       \<and> (\<exists>fn. parseMatrixMessage env (file_filename f) = Inr fn
                            \<and> emb_description emb
                                = Some (''Uploaded a file `'' @ fn @ ''`: '' @ file_url f)))"
proof -
  obtain tr res where eb: "embedBody env msg = (tr, res)" by (cases "embedBody env msg")
  have q: "filter isSend tr = []" using embedBody_quiet [of env msg] eb by simp
  then have notin: "ev \<notin> set tr" using assms(2) by (auto simp: filter_empty_conv)
  show ?thesis
  proof (cases res)
    case (Inl e)
    with eb assms(1) notin show ?thesis by (simp add: sendAsEmbed_def)
  next
    case (Inr emb)
    note sh = embedBody_shape [OF eb [unfolded Inr]]
    show ?thesis
    proof (cases "embedReply emb r")
      case I: (Inl e)
      with eb Inr assms(1) notin show ?thesis by (simp add: sendAsEmbed_def)
    next
      case R: (Inr emb2)
      define emb3 where "emb3 = setAuthor (su_displayname u) (orUndefined (su_avatarUrl u))
                           (Some (''https://matrix.to/#/'' @ su_mxid u)) emb2"
      from eb Inr R have run: "sendAsEmbed env msg u r
          = (tr @ [ChanSend (SendEmbed emb3) None], chanSend env (SendEmbed emb3) None)"
        by (simp add: sendAsEmbed_def Let_def emb3_def)
      with assms(1) notin have ev: "ev = ChanSend (SendEmbed emb3) None" by simp
      have au: "emb_author emb3
               = Some \<lparr>author_name = su_displayname u,
                       author_iconURL = (case su_avatarUrl u of None \<Rightarrow> None
                                         | Some a \<Rightarrow> if a = [] then None else Some a),
                       author_url = Some (''https://matrix.to/#/'' @ su_mxid u)\<rparr>"
        by (simp add: emb3_def setAuthor_def resolveString_def orUndefined_cases)
      have keep3: "emb_title emb3 = emb_title emb2" "emb_description emb3 = emb_description emb2"
                  "emb_image emb3 = emb_image emb2" "emb_fields emb3 = emb_fields emb2"
        by (simp_all add: emb3_def setAuthor_def)
      have keep2: "emb_title emb2 = emb_title emb" "emb_description emb2 = emb_description emb"
                  "emb_image emb2 = emb_image emb"
        using R by (auto simp: embedReply_cases split: option.splits if_splits)
      have fl: "(case r of
                 None \<Rightarrow> emb_fields emb2 = []
               | Some rp \<Rightarrow>
                  (case emb_description rp of
                     None \<Rightarrow> emb_fields emb2 = []
                   | Some d \<Rightarrow>
                      if d = [] then emb_fields emb2 = []
                      else (\<exists>a. emb_author rp = Some a \<and> author_name a \<noteq> []
                              \<and> emb_fields emb2
                                  = [(''Replying to'', author_name a), (''Reply text'', d)])))"
        using R sh by (auto simp: embedReply_cases split: option.splits if_splits)
      have pl: "(case msg of
                 MsgString s \<Rightarrow>
                   escapeCalls (tr @ [ChanSend (SendEmbed emb3) None]) = []
                   \<and> emb_title emb = None \<and> emb_description emb = Some s
                   \<and> emb_image emb = None
               | MsgEmbed m \<Rightarrow>
                  (case emb_image m of
                     None \<Rightarrow>
                       escapeCalls (tr @ [ChanSend (SendEmbed emb3) None]) = []
                       \<and> emb_title emb = None \<and> emb_description emb = None
                       \<and> emb_image emb = None
                   | Some url \<Rightarrow>
                       escapeCalls (tr @ [ChanSend (SendEmbed emb3) None]) = []
                       \<and> emb_title emb
                           = Some (case emb_title m of None \<Rightarrow> ''undefined'' | Some t \<Rightarrow> t)
                       \<and> emb_description emb = None \<and> emb_image emb = Some url)
               | MsgFile f \<Rightarrow>
                  if file_isImage f
                  then escapeCalls (tr @ [ChanSend (SendEmbed emb3) None]) = []
                       \<and> emb_title emb = Some (file_filename f) \<and> emb_description emb = None
                       \<and> emb_image emb = Some (file_url f)
                  else escapeCalls (tr @ [ChanSend (SendEmbed emb3) None]) = [file_filename f]
                       \<and> emb_title emb = None \<and> emb_image emb = None
                       \<and> (\<exists>fn. parseMatrixMessage env (file_filename f) = Inr fn
                            \<and> emb_description emb
                                = Some (''Uploaded a file `'' @ fn @ ''`: '' @ file_url f)))"
        using sh by (cases msg) (auto simp: escapeCalls_append split: option.splits if_splits)
      show ?thesis
        apply (rule exI [of _ emb3])
        unfolding run fst_conv snd_conv ev keep3 keep2
        using au fl pl unfolding keep3 keep2
        by simp
    qed
  qed
qed

lemma sendAsEmbed_unsent:
  assumes "filter isSend (fst (sendAsEmbed env msg u r)) = []"
  shows "\<exists>e. snd (sendAsEmbed env msg u r) = Inl e
           \<and> ((e = TypeError
                \<and> (\<exists>rp d. r = Some rp \<and> emb_description rp = Some d \<and> d \<noteq> []
                       \<and> emb_author rp = None))
              \<or> (e = RangeError
                \<and> (\<exists>rp d a. r = Some rp \<and> emb_description rp = Some d \<and> d \<noteq> []
                       \<and> emb_author rp = Some a \<and> author_name a = []))
              \<or> (\<exists>f. msg = MsgFile f \<and> \<not> file_isImage f
                     \<and> Escape (file_filename f) \<in> set (fst (sendAsEmbed env msg u r))
                     \<and> parseMatrixMessage env (file_filename f) = Inl e))"
proof -
  obtain tr res where eb: "embedBody env msg = (tr, res)" by (cases "embedBody env msg")
  show ?thesis
  proof (cases res)
    case (Inl e)
    from embedBody_failed [OF eb [unfolded Inl]] eb Inl show ?thesis
      by (auto simp: sendAsEmbed_def)
  next
    case (Inr emb)
    show ?thesis
    proof (cases "embedReply emb r")
      case I: (Inl e)
      then have "(e = TypeError
                \<and> (\<exists>rp d. r = Some rp \<and> emb_description rp = Some d \<and> d \<noteq> []
                       \<and> emb_author rp = None))
              \<or> (e = RangeError
                \<and> (\<exists>rp d a. r = Some rp \<and> emb_description rp = Some d \<and> d \<noteq> []
                       \<and> emb_author rp = Some a \<and> author_name a = []))"
        by (auto simp: embedReply_cases split: option.splits if_splits)
      moreover have "snd (sendAsEmbed env msg u r) = Inl e"
        using eb Inr I by (simp add: sendAsEmbed_def)
      ultimately show ?thesis by blast
    next
      case R: (Inr emb2)
      with eb Inr assms show ?thesis by (simp add: sendAsEmbed_def Let_def)
    qed
  qed
qed

lemma sendAsEmbed_warns: "filter isWarn (fst (sendAsEmbed env msg u r)) = []"
  using embedBody_quiet [of env msg]
  by (auto simp: sendAsEmbed_def Let_def split: prod.splits sum.splits)

lemma sendAsEmbed_one_send: "length (filter isSend (fst (sendAsEmbed env msg u r))) \<le> 1"
  using embedBody_quiet [of env msg]
  by (auto simp: sendAsEmbed_def Let_def split: prod.splits sum.splits)

text \<open>The prefixed plain-text relay.\<close>

lemma prefixedBody_quiet:
  "filter isWarn (fst (prefixedBody env d msg)) = [] \<and> filter isSend (fst (prefixedBody env d msg)) = []"
  by (auto simp: prefixedBody_def split: message.splits option.splits sum.splits)

lemma sendPrefixed_string:
  assumes "parseMatrixMessage env (su_displayname u) = Inr name"
  shows "sendPrefixed env (MsgString body) u r
         = ([Escape (su_displayname u),
             ChanSend (SendString (''**'' @ name @ ''**: '' @ body @ replySuffix r)) None],
            chanSend env (SendString (''**'' @ name @ ''**: '' @ body @ replySuffix r)) None)"
  using assms by (simp add: sendPrefixed_def prefixedBody_def Let_def)

lemma sendPrefixed_bare_embed:
  assumes "parseMatrixMessage env (su_displayname u) = Inr name" and "emb_image m = None"
  shows "sendPrefixed env (MsgEmbed m) u r
         = ([Escape (su_displayname u), ChanSend (SendString (replySuffix r)) None],
            chanSend env (SendString (replySuffix r)) None)"
  using assms by (simp add: sendPrefixed_def prefixedBody_def Let_def)

lemma prefixedBody_shape:
  assumes "prefixedBody env name msg = (tr, Inr body)"
  shows "(case msg of
            MsgString s \<Rightarrow> tr = [] \<and> body = ''**'' @ name @ ''**: '' @ s
          | MsgEmbed m \<Rightarrow>
             (case emb_image m of
                None \<Rightarrow> tr = [] \<and> body = []
              | Some url \<Rightarrow>
                 if truthy_opt (emb_title m)
                 then tr = [Escape (the (emb_title m))]
                      \<and> (\<exists>fn. parseMatrixMessage env (the (emb_title m)) = Inr fn
                           \<and> body = ''**'' @ name @ ''** uploaded a file `'' @ fn @ ''`: ''
                                     @ ''[object Object]'')
                 else tr = [] \<and> body = ''**'' @ name @ ''** uploaded a file: '' @ ''[object Object]'')
          | MsgFile f \<Rightarrow>
              tr = [Escape (file_filename f)]
              \<and> (\<exists>fn. parseMatrixMessage env (file_filename f) = Inr fn
                   \<and> body = ''**'' @ name @ ''** uploaded a file `'' @ fn @ ''`: '' @ file_url f))"
  using assms
  by (auto simp: prefixedBody_def split: message.splits option.splits sum.splits if_splits)

lemma prefixedBody_failed:
  assumes "prefixedBody env d msg = (tr, Inl e)"
  shows "\<exists>s. tr = [Escape s] \<and> parseMatrixMessage env s = Inl e"
  using assms
  by (auto simp: prefixedBody_def split: message.splits option.splits sum.splits if_splits)

lemma sendPrefixed_shape:
  assumes "ev \<in> set (fst (sendPrefixed env msg u r))" and "isSend ev"
  shows "\<exists>name body. parseMatrixMessage env (su_displayname u) = Inr name
           \<and> ev = ChanSend (SendString (body @ replySuffix r)) None
           \<and> (case msg of
                 MsgString s \<Rightarrow>
                   escapeCalls (fst (sendPrefixed env msg u r)) = [su_displayname u]
                   \<and> body = ''**'' @ name @ ''**: '' @ s
               | MsgEmbed m \<Rightarrow>
                  (case emb_image m of
                     None \<Rightarrow> escapeCalls (fst (sendPrefixed env msg u r)) = [su_displayname u]
                             \<and> body = []
                   | Some url \<Rightarrow>
                      if truthy_opt (emb_title m)
                      then escapeCalls (fst (sendPrefixed env msg u r))
                             = [su_displayname u, the (emb_title m)]
                           \<and> (\<exists>fn. parseMatrixMessage env (the (emb_title m)) = Inr fn
                                \<and> body = ''**'' @ name @ ''** uploaded a file `'' @ fn @ ''`: ''
                                          @ ''[object Object]'')
                      else escapeCalls (fst (sendPrefixed env msg u r)) = [su_displayname u]
                           \<and> body = ''**'' @ name @ ''** uploaded a file: ''
                                     @ ''[object Object]'')
               | MsgFile f \<Rightarrow>
                   escapeCalls (fst (sendPrefixed env msg u r))
                     = [su_displayname u, file_filename f]
                   \<and> (\<exists>fn. parseMatrixMessage env (file_filename f) = Inr fn
                        \<and> body = ''**'' @ name @ ''** uploaded a file `'' @ fn @ ''`: ''
                                  @ file_url f))"
proof (cases "parseMatrixMessage env (su_displayname u)")
  case (Inl e)
  with assms show ?thesis by (simp add: sendPrefixed_def)
next
  case (Inr name)
  obtain tr res where pb: "prefixedBody env name msg = (tr, res)"
    by (cases "prefixedBody env name msg")
  have q: "filter isSend tr = []" using prefixedBody_quiet [of env name msg] pb by simp
  then have notin: "ev \<notin> set tr" using assms(2) by (auto simp: filter_empty_conv)
  show ?thesis
  proof (cases res)
    case I: (Inl e)
    with Inr pb assms notin show ?thesis by (auto simp: sendPrefixed_def)
  next
    case R: (Inr body)
    note sh = prefixedBody_shape [OF pb [unfolded R]]
    from Inr pb R have run: "fst (sendPrefixed env msg u r)
        = Escape (su_displayname u) # tr @ [ChanSend (SendString (body @ replySuffix r)) None]"
      by (simp add: sendPrefixed_def Let_def)
    with assms notin have ev: "ev = ChanSend (SendString (body @ replySuffix r)) None"
      by auto
    show ?thesis
      unfolding run ev using sh Inr
      by (cases msg) (auto simp: escapeCalls_append split: option.splits if_splits)
  qed
qed

lemma sendPrefixed_linked:
  assumes "ChanSend t rp \<in> set (fst (sendPrefixed env msg u r))"
  shows "snd (sendPrefixed env msg u r) = chanSend env t rp"
proof (cases "parseMatrixMessage env (su_displayname u)")
  case (Inl e)
  with assms show ?thesis by (simp add: sendPrefixed_def)
next
  case (Inr name)
  obtain tr res where pb: "prefixedBody env name msg = (tr, res)"
    by (cases "prefixedBody env name msg")
  have "filter isSend tr = []" using prefixedBody_quiet [of env name msg] pb by simp
  then have notin: "ChanSend t rp \<notin> set tr" by (auto simp: filter_empty_conv)
  show ?thesis
    using Inr pb assms notin by (cases res) (auto simp: sendPrefixed_def Let_def)
qed

lemma sendPrefixed_unsent:
  assumes "filter isSend (fst (sendPrefixed env msg u r)) = []"
  shows "\<exists>e s. snd (sendPrefixed env msg u r) = Inl e
           \<and> Escape s \<in> set (fst (sendPrefixed env msg u r))
           \<and> parseMatrixMessage env s = Inl e"
proof (cases "parseMatrixMessage env (su_displayname u)")
  case (Inl e)
  then show ?thesis by (auto simp: sendPrefixed_def)
next
  case (Inr name)
  obtain tr res where pb: "prefixedBody env name msg = (tr, res)"
    by (cases "prefixedBody env name msg")
  show ?thesis
  proof (cases res)
    case I: (Inl e)
    from prefixedBody_failed [OF pb [unfolded I]] Inr pb I show ?thesis
      by (auto simp: sendPrefixed_def)
  next
    case R: (Inr body)
    with Inr pb assms show ?thesis by (simp add: sendPrefixed_def Let_def)
  qed
qed

lemma sendPrefixed_one_send: "length (filter isSend (fst (sendPrefixed env msg u r))) \<le> 1"
proof (cases "parseMatrixMessage env (su_displayname u)")
  case (Inl e)
  then show ?thesis by (simp add: sendPrefixed_def)
next
  case (Inr d)
  then show ?thesis
    using prefixedBody_quiet [of env d msg]
    by (auto simp: sendPrefixed_def Let_def split: prod.splits sum.splits)
qed

subsection \<open>Delivery: outcome of a run\<close>

lemma run_cases:
  "\<exists>pre m. filter isSend pre = [] \<and> escapeCalls pre = []
      \<and> sendToDiscord env chan msg asUser r = after pre m
      \<and> ((asUser = None \<and> m = sendDirect env (makeSendThing msg) r)
         \<or> (\<exists>u h. asUser = Some u \<and> chan_kind chan = TextChannel \<and> snd (findHook env) = Some h
                \<and> m = sendAsWebhook env h (makeSendThing msg) u r)
         \<or> (\<exists>u. asUser = Some u
                \<and> (chan_kind chan \<noteq> TextChannel \<or> snd (findHook env) = None)
                \<and> m = sendWithoutHook env msg u r))"
proof (cases asUser)
  case None
  then show ?thesis using direct_run [of env chan msg r] by blast
next
  case (Some u)
  show ?thesis
  proof (cases "chan_kind chan = TextChannel \<and> snd (findHook env) \<noteq> None")
    case True
    then obtain tr h where fh: "findHook env = (tr, Some h)" by (cases "findHook env") auto
    from relay_with_hook [of chan env tr h msg u r] True fh
    obtain pre where "filter isSend pre = []" "escapeCalls pre = []"
      "sendToDiscord env chan msg (Some u) r = after pre (sendAsWebhook env h (makeSendThing msg) u r)"
      by auto
    with Some True fh show ?thesis
      by (intro exI [of _ pre] exI [of _ "sendAsWebhook env h (makeSendThing msg) u r"]) auto
  next
    case False
    then have nh: "chan_kind chan \<noteq> TextChannel \<or> snd (findHook env) = None" by auto
    from relay_without_hook [OF nh, of msg u r] Some nh show ?thesis by blast
  qed
qed

text \<open>The three properties of a mechanism, and how they pass through a quiet prefix.\<close>

lemma after_linked:
  assumes "filter isSend pre = []"
      and "(\<forall>t rp. ChanSend t rp \<in> set (fst m) \<longrightarrow> snd m = chanSend env t rp)
           \<and> (\<forall>h c opts. HookSend h c opts \<in> set (fst m) \<longrightarrow> snd m = hookSend env h c opts)"
  shows "(\<forall>t rp. ChanSend t rp \<in> set (fst (after pre m)) \<longrightarrow> snd (after pre m) = chanSend env t rp)
         \<and> (\<forall>h c opts. HookSend h c opts \<in> set (fst (after pre m))
               \<longrightarrow> snd (after pre m) = hookSend env h c opts)"
proof -
  have "\<And>ev. isSend ev \<Longrightarrow> ev \<notin> set pre" using assms(1) by (auto simp: filter_empty_conv)
  then have "ChanSend t rp \<notin> set pre" and "HookSend h c opts \<notin> set pre" for t rp h c opts
    by (metis isSend.simps(2), metis isSend.simps(1))
  with assms(2) show ?thesis by auto
qed

lemma after_unsent:
  assumes "filter isSend (fst m) = [] \<longrightarrow>
             (\<exists>e. snd m = Inl e
                \<and> (A e \<or> B e \<or> (\<exists>s. Escape s \<in> set (fst m) \<and> parseMatrixMessage env s = Inl e)))"
  shows "filter isSend (fst (after pre m)) = [] \<longrightarrow>
             (\<exists>e. snd (after pre m) = Inl e
                \<and> (A e \<or> B e \<or> (\<exists>s. Escape s \<in> set (fst (after pre m))
                                      \<and> parseMatrixMessage env s = Inl e)))"
  using assms by auto

lemma sendDirect_props:
  "length (filter isSend (fst (sendDirect env st r))) \<le> 1
   \<and> (\<forall>t rp. ChanSend t rp \<in> set (fst (sendDirect env st r))
         \<longrightarrow> snd (sendDirect env st r) = chanSend env t rp)
   \<and> (\<forall>h c opts. HookSend h c opts \<in> set (fst (sendDirect env st r))
         \<longrightarrow> snd (sendDirect env st r) = hookSend env h c opts)
   \<and> (filter isSend (fst (sendDirect env st r)) = []
         \<longrightarrow> snd (sendDirect env st r) = Inl TypeError \<and> acting_user env = None)"
  by (auto simp: sendDirect_cases split: option.splits)

lemma sendAsWebhook_props:
  "length (filter isSend (fst (sendAsWebhook env h st u r))) = 1
   \<and> (\<forall>t rp. ChanSend t rp \<in> set (fst (sendAsWebhook env h st u r))
         \<longrightarrow> snd (sendAsWebhook env h st u r) = chanSend env t rp)
   \<and> (\<forall>h' c opts. HookSend h' c opts \<in> set (fst (sendAsWebhook env h st u r))
         \<longrightarrow> snd (sendAsWebhook env h st u r) = hookSend env h' c opts)"
proof -
  obtain c opts where "sendAsWebhook env h st u r = ([HookSend h c opts], hookSend env h c opts)"
    using sendAsWebhook_shape [of env h st u r] by blast
  then show ?thesis by simp
qed

lemma sendAsEmbed_linked:
  "(\<forall>t rp. ChanSend t rp \<in> set (fst (sendAsEmbed env msg u r))
         \<longrightarrow> snd (sendAsEmbed env msg u r) = chanSend env t rp)
   \<and> (\<forall>h c opts. HookSend h c opts \<notin> set (fst (sendAsEmbed env msg u r)))"
proof (intro conjI allI impI)
  fix t rp assume "ChanSend t rp \<in> set (fst (sendAsEmbed env msg u r))"
  from sendAsEmbed_sent [OF this] show "snd (sendAsEmbed env msg u r) = chanSend env t rp"
    by auto
next
  fix h c opts
  show "HookSend h c opts \<notin> set (fst (sendAsEmbed env msg u r))"
  proof
    assume "HookSend h c opts \<in> set (fst (sendAsEmbed env msg u r))"
    from sendAsEmbed_sent [OF this] show False by auto
  qed
qed

lemma sendPrefixed_no_hook_send:
  "HookSend h c opts \<notin> set (fst (sendPrefixed env msg u r))"
proof
  assume "HookSend h c opts \<in> set (fst (sendPrefixed env msg u r))"
  from sendPrefixed_shape [OF this] show False by auto
qed

lemma sendWithoutHook_props:
  "length (filter isSend (fst (sendWithoutHook env msg u r))) \<le> 1
   \<and> (\<forall>t rp. ChanSend t rp \<in> set (fst (sendWithoutHook env msg u r))
         \<longrightarrow> snd (sendWithoutHook env msg u r) = chanSend env t rp)
   \<and> (\<forall>h c opts. HookSend h c opts \<in> set (fst (sendWithoutHook env msg u r))
         \<longrightarrow> snd (sendWithoutHook env msg u r) = hookSend env h c opts)
   \<and> (filter isSend (fst (sendWithoutHook env msg u r)) = [] \<longrightarrow>
         (\<exists>e. snd (sendWithoutHook env msg u r) = Inl e
            \<and> ((e = TypeError
                 \<and> (acting_user env = None
                    \<or> (\<exists>rp d. r = Some rp \<and> emb_description rp = Some d \<and> d \<noteq> []
                           \<and> emb_author rp = None)))
               \<or> (e = RangeError
                 \<and> (\<exists>rp d a. r = Some rp \<and> emb_description rp = Some d \<and> d \<noteq> []
                        \<and> emb_author rp = Some a \<and> author_name a = []))
               \<or> (\<exists>s. Escape s \<in> set (fst (sendWithoutHook env msg u r))
                      \<and> parseMatrixMessage env s = Inl e))))"
proof (cases "acting_user env")
  case None
  then show ?thesis by (simp add: sendWithoutHook_null)
next
  case (Some cu)
  show ?thesis
  proof (cases "cu_bot cu")
    case True
    note run = sendWithoutHook_bot [OF Some True, of msg u r]
    have un: "filter isSend (fst (sendAsEmbed env msg u r)) = [] \<longrightarrow>
         (\<exists>e. snd (sendAsEmbed env msg u r) = Inl e
            \<and> ((e = TypeError
                 \<and> (acting_user env = None
                    \<or> (\<exists>rp d. r = Some rp \<and> emb_description rp = Some d \<and> d \<noteq> []
                           \<and> emb_author rp = None)))
               \<or> (e = RangeError
                 \<and> (\<exists>rp d a. r = Some rp \<and> emb_description rp = Some d \<and> d \<noteq> []
                        \<and> emb_author rp = Some a \<and> author_name a = []))
               \<or> (\<exists>s. Escape s \<in> set (fst (sendAsEmbed env msg u r))
                      \<and> parseMatrixMessage env s = Inl e)))"
      using sendAsEmbed_unsent [of env msg u r] by blast
    show ?thesis
      unfolding run
      using sendAsEmbed_one_send [of env msg u r] sendAsEmbed_linked [of env msg u r] un
      by auto
  next
    case False
    note run = sendWithoutHook_user [OF Some False, of msg u r]
    have un: "filter isSend (fst (sendPrefixed env msg u r)) = [] \<longrightarrow>
         (\<exists>e. snd (sendPrefixed env msg u r) = Inl e
            \<and> ((e = TypeError
                 \<and> (acting_user env = None
                    \<or> (\<exists>rp d. r = Some rp \<and> emb_description rp = Some d \<and> d \<noteq> []
                           \<and> emb_author rp = None)))
               \<or> (e = RangeError
                 \<and> (\<exists>rp d a. r = Some rp \<and> emb_description rp = Some d \<and> d \<noteq> []
                        \<and> emb_author rp = Some a \<and> author_name a = []))
               \<or> (\<exists>s. Escape s \<in> set (fst (sendPrefixed env msg u r))
                      \<and> parseMatrixMessage env s = Inl e)))"
      using sendPrefixed_unsent [of env msg u r] by blast
    show ?thesis
      unfolding run
      using sendPrefixed_one_send [of env msg u r] sendPrefixed_linked [of _ _ env msg u r]
            sendPrefixed_no_hook_send [of _ _ _ env msg u r] un
      by auto
  qed
qed

lemma sendToDiscord_props:
  "length (filter isSend (fst (sendToDiscord env chan msg asUser r))) \<le> 1
   \<and> (\<forall>t rp. ChanSend t rp \<in> set (fst (sendToDiscord env chan msg asUser r))
         \<longrightarrow> snd (sendToDiscord env chan msg asUser r) = chanSend env t rp)
   \<and> (\<forall>h c opts. HookSend h c opts \<in> set (fst (sendToDiscord env chan msg asUser r))
         \<longrightarrow> snd (sendToDiscord env chan msg asUser r) = hookSend env h c opts)
   \<and> (filter isSend (fst (sendToDiscord env chan msg asUser r)) = [] \<longrightarrow>
         (\<exists>e. snd (sendToDiscord env chan msg asUser r) = Inl e
            \<and> ((e = TypeError
                 \<and> (acting_user env = None
                    \<or> (\<exists>rp d. r = Some rp \<and> emb_description rp = Some d \<and> d \<noteq> []
                           \<and> emb_author rp = None)))
               \<or> (e = RangeError
                 \<and> (\<exists>rp d a. r = Some rp \<and> emb_description rp = Some d \<and> d \<noteq> []
                        \<and> emb_author rp = Some a \<and> author_name a = []))
               \<or> (\<exists>s. Escape s \<in> set (fst (sendToDiscord env chan msg asUser r))
                      \<and> parseMatrixMessage env s = Inl e))))"
proof -
  obtain pre m where pre: "filter isSend pre = []"
    and run: "sendToDiscord env chan msg asUser r = after pre m"
    and m: "(asUser = None \<and> m = sendDirect env (makeSendThing msg) r)
         \<or> (\<exists>u h. asUser = Some u \<and> chan_kind chan = TextChannel \<and> snd (findHook env) = Some h
                \<and> m = sendAsWebhook env h (makeSendThing msg) u r)
         \<or> (\<exists>u. asUser = Some u
                \<and> (chan_kind chan \<noteq> TextChannel \<or> snd (findHook env) = None)
                \<and> m = sendWithoutHook env msg u r)"
    using run_cases [of env chan msg asUser r] by blast
  have mp: "length (filter isSend (fst m)) \<le> 1
   \<and> ((\<forall>t rp. ChanSend t rp \<in> set (fst m) \<longrightarrow> snd m = chanSend env t rp)
      \<and> (\<forall>h c opts. HookSend h c opts \<in> set (fst m) \<longrightarrow> snd m = hookSend env h c opts))
   \<and> (filter isSend (fst m) = [] \<longrightarrow>
         (\<exists>e. snd m = Inl e
            \<and> ((e = TypeError
                 \<and> (acting_user env = None
                    \<or> (\<exists>rp d. r = Some rp \<and> emb_description rp = Some d \<and> d \<noteq> []
                           \<and> emb_author rp = None)))
               \<or> (e = RangeError
                 \<and> (\<exists>rp d a. r = Some rp \<and> emb_description rp = Some d \<and> d \<noteq> []
                        \<and> emb_author rp = Some a \<and> author_name a = []))
               \<or> (\<exists>s. Escape s \<in> set (fst m) \<and> parseMatrixMessage env s = Inl e))))"
  proof -
    from m consider (direct) "m = sendDirect env (makeSendThing msg) r"
      | (hook) u h where "m = sendAsWebhook env h (makeSendThing msg) u r"
      | (nohook) u where "m = sendWithoutHook env msg u r"
      by blast
    then show ?thesis
    proof cases
      case direct
      then show ?thesis using sendDirect_props [of env "makeSendThing msg" r] by auto
    next
      case hook
      then show ?thesis using sendAsWebhook_props [of env h "makeSendThing msg" u r] by auto
    next
      case nohook
      then show ?thesis using sendWithoutHook_props [of env msg u r] by blast
    qed
  qed
  from mp have one: "length (filter isSend (fst m)) \<le> 1" by blast
  from mp have li: "(\<forall>t rp. ChanSend t rp \<in> set (fst m) \<longrightarrow> snd m = chanSend env t rp)
      \<and> (\<forall>h c opts. HookSend h c opts \<in> set (fst m) \<longrightarrow> snd m = hookSend env h c opts)"
    by blast
  from mp have un: "filter isSend (fst m) = [] \<longrightarrow>
         (\<exists>e. snd m = Inl e
            \<and> ((e = TypeError
                 \<and> (acting_user env = None
                    \<or> (\<exists>rp d. r = Some rp \<and> emb_description rp = Some d \<and> d \<noteq> []
                           \<and> emb_author rp = None)))
               \<or> (e = RangeError
                 \<and> (\<exists>rp d a. r = Some rp \<and> emb_description rp = Some d \<and> d \<noteq> []
                        \<and> emb_author rp = Some a \<and> author_name a = []))
               \<or> (\<exists>s. Escape s \<in> set (fst m) \<and> parseMatrixMessage env s = Inl e)))"
    by blast
  have s: "filter isSend (fst (after pre m)) = filter isSend (fst m)"
    using pre by (rule after_sends)
  show ?thesis
    unfolding run
    using one after_linked [OF pre li] after_unsent [OF un, of pre] unfolding s
    by blast
qed

subsection \<open>The loops against their lists of calls\<close>

lemma uncategorizedCalls_Nil: "uncategorizedCalls bg bc g uid [] = []"
  by (simp add: uncategorizedCalls_def)

lemma uncategorizedCalls_Cons:
  "uncategorizedCalls bg bc g uid (chan # rest) =
     (if qualifies bg bc g uid chan \<and> \<not> truthy_opt (chan_parentID chan)
      then OnChannel chan # uncategorizedCalls bg bc g uid rest
      else uncategorizedCalls bg bc g uid rest)"
  by (simp add: uncategorizedCalls_def)

lemma childrenCalls_True:
  "childrenCalls bg bc g uid cat True chans = map OnChannel (filter (qualifies bg bc g uid) chans)"
  by (simp add: childrenCalls_def split: list.splits)

lemma childrenCalls_Nil: "childrenCalls bg bc g uid cat doCat [] = []"
  by (simp add: childrenCalls_def)

lemma childrenCalls_Cons:
  "childrenCalls bg bc g uid cat doCat (chan # rest) =
     (if qualifies bg bc g uid chan
      then (if doCat then [] else [OnCategory cat])
           @ OnChannel chan # childrenCalls bg bc g uid cat True rest
      else childrenCalls bg bc g uid cat doCat rest)"
  by (simp add: childrenCalls_def split: list.splits)

lemma uncategorizedLoop_calls:
  "(\<exists>rest. uncategorizedCalls bg bc g (cu_id u) chans
             = fst (uncategorizedLoop env (Some u) bg bc g chans) @ rest)
   \<and> (snd (uncategorizedLoop env (Some u) bg bc g chans) = None
        \<longrightarrow> fst (uncategorizedLoop env (Some u) bg bc g chans)
             = uncategorizedCalls bg bc g (cu_id u) chans)
   \<and> ((\<forall>c. chanCallback env c = None)
        \<longrightarrow> snd (uncategorizedLoop env (Some u) bg bc g chans) = None)"
proof (induction chans)
  case Nil
  show ?case by (simp add: uncategorizedCalls_Nil)
next
  case (Cons chan rest)
  show ?case
  proof (cases "qualifies bg bc g (cu_id u) chan \<and> \<not> truthy_opt (chan_parentID chan)")
    case False
    then have run: "uncategorizedLoop env (Some u) bg bc g (chan # rest)
                = uncategorizedLoop env (Some u) bg bc g rest"
      by (auto simp: qualifies_def)
    from False have calls: "uncategorizedCalls bg bc g (cu_id u) (chan # rest)
                = uncategorizedCalls bg bc g (cu_id u) rest"
      unfolding uncategorizedCalls_Cons by (rule if_not_P)
    show ?thesis
      unfolding run calls using Cons.IH .
  next
    case True
    then have run: "uncategorizedLoop env (Some u) bg bc g (chan # rest)
        = (case chanCallback env chan of
             Some e \<Rightarrow> ([OnChannel chan], Some e)
           | None \<Rightarrow> emit (OnChannel chan) (uncategorizedLoop env (Some u) bg bc g rest))"
      by (auto simp: qualifies_def)
    show ?thesis
      unfolding run using True Cons.IH
      by (cases "chanCallback env chan") (auto simp: uncategorizedCalls_Cons)
  qed
qed

lemma childrenLoop_calls:
  "(\<exists>rest. childrenCalls bg bc g (cu_id u) cat doCat chans
             = fst (childrenLoop env (Some u) bg bc g cat doCat chans) @ rest)
   \<and> (snd (childrenLoop env (Some u) bg bc g cat doCat chans) = None
        \<longrightarrow> fst (childrenLoop env (Some u) bg bc g cat doCat chans)
             = childrenCalls bg bc g (cu_id u) cat doCat chans)
   \<and> ((\<forall>c. chanCallback env c = None) \<and> (\<forall>c. catCallback env c = None)
        \<longrightarrow> snd (childrenLoop env (Some u) bg bc g cat doCat chans) = None)"
proof (induction chans arbitrary: doCat)
  case Nil
  show ?case by (simp add: childrenCalls_Nil)
next
  case (Cons chan rest)
  show ?case
  proof (cases "qualifies bg bc g (cu_id u) chan")
    case False
    then have run: "childrenLoop env (Some u) bg bc g cat doCat (chan # rest)
                = childrenLoop env (Some u) bg bc g cat doCat rest"
      by (auto simp: qualifies_def)
    show ?thesis
      unfolding run using False Cons.IH [of doCat] by (simp add: childrenCalls_Cons)
  next
    case True
    define callChan where "callChan =
        (case chanCallback env chan of
           Some e \<Rightarrow> ([OnChannel chan], Some e)
         | None \<Rightarrow> emit (OnChannel chan) (childrenLoop env (Some u) bg bc g cat True rest))"
    have cc: "(\<exists>rest'. OnChannel chan # childrenCalls bg bc g (cu_id u) cat True rest
                        = fst callChan @ rest')
        \<and> (snd callChan = None
             \<longrightarrow> fst callChan = OnChannel chan # childrenCalls bg bc g (cu_id u) cat True rest)
        \<and> ((\<forall>c. chanCallback env c = None) \<and> (\<forall>c. catCallback env c = None)
             \<longrightarrow> snd callChan = None)"
      unfolding callChan_def using Cons.IH [of True]
      by (cases "chanCallback env chan") auto
    from True have run: "childrenLoop env (Some u) bg bc g cat doCat (chan # rest)
        = (if \<not> doCat then
             (case catCallback env cat of
                Some e \<Rightarrow> ([OnCategory cat], Some e)
              | None \<Rightarrow> emit (OnCategory cat) callChan)
           else callChan)"
      unfolding callChan_def by (auto simp: qualifies_def Let_def)
    show ?thesis
      unfolding run using True cc
      by (cases "catCallback env cat") (auto simp: childrenCalls_Cons)
  qed
qed


lemma categoriesCalls_Nil: "categoriesCalls bg bc g uid [] = []"
  by (simp add: categoriesCalls_def)

lemma categoriesCalls_Cons:
  "categoriesCalls bg bc g uid (cat # rest) =
     (if chan_kind cat = CategoryChannel \<and> uid \<in> set (chan_members cat)
      then childrenCalls bg bc g uid cat False (children g cat)
      else [])
     @ categoriesCalls bg bc g uid rest"
  by (simp add: categoriesCalls_def)

lemma categoriesLoop_calls:
  "(\<exists>rest. categoriesCalls bg bc g (cu_id u) cats
             = fst (categoriesLoop env (Some u) bg bc g cats) @ rest)
   \<and> (snd (categoriesLoop env (Some u) bg bc g cats) = None
        \<longrightarrow> fst (categoriesLoop env (Some u) bg bc g cats)
             = categoriesCalls bg bc g (cu_id u) cats)
   \<and> ((\<forall>c. chanCallback env c = None) \<and> (\<forall>c. catCallback env c = None)
        \<longrightarrow> snd (categoriesLoop env (Some u) bg bc g cats) = None)"
proof (induction cats)
  case Nil
  show ?case by (simp add: categoriesCalls_Nil)
next
  case (Cons cat rest)
  show ?case
  proof (cases "chan_kind cat = CategoryChannel \<and> cu_id u \<in> set (chan_members cat)")
    case False
    then have run: "categoriesLoop env (Some u) bg bc g (cat # rest)
                     = categoriesLoop env (Some u) bg bc g rest"
      by auto
    from False have calls: "categoriesCalls bg bc g (cu_id u) (cat # rest)
                             = categoriesCalls bg bc g (cu_id u) rest"
      unfolding categoriesCalls_Cons by (simp only: if_False if_not_P append_Nil)
    show ?thesis unfolding run calls using Cons.IH .
  next
    case True
    obtain tr res where cl: "childrenLoop env (Some u) bg bc g cat False (children g cat) = (tr, res)"
      by (cases "childrenLoop env (Some u) bg bc g cat False (children g cat)")
    note ch = childrenLoop_calls [of bg bc g u cat False "children g cat" env, unfolded cl]
    from True have calls: "categoriesCalls bg bc g (cu_id u) (cat # rest)
        = childrenCalls bg bc g (cu_id u) cat False (children g cat)
          @ categoriesCalls bg bc g (cu_id u) rest"
      unfolding categoriesCalls_Cons by simp
    show ?thesis
    proof (cases res)
      case None
      with True cl have run: "categoriesLoop env (Some u) bg bc g (cat # rest)
          = after tr (categoriesLoop env (Some u) bg bc g rest)"
        by simp
      from ch None have tr: "tr = childrenCalls bg bc g (cu_id u) cat False (children g cat)"
        by simp
      show ?thesis unfolding run calls tr using Cons.IH by auto
    next
      case (Some e)
      with True cl have run: "categoriesLoop env (Some u) bg bc g (cat # rest) = (tr, Some e)"
        by simp
      from ch Some show ?thesis unfolding run calls by auto
    qed
  qed
qed

lemma iterateGuildStructure_calls:
  assumes "getBridgedGuilds env pid = Inr bg" and "getBridgedChannels env pid = Inr bc"
  shows "(\<exists>rest. uncategorizedCalls bg bc g (cu_id u) (guild_channels g)
                  @ categoriesCalls bg bc g (cu_id u) (guild_channels g)
             = fst (iterateGuildStructure env (Some u) pid g) @ rest)
   \<and> ((\<forall>c. chanCallback env c = None) \<and> (\<forall>c. catCallback env c = None)
        \<longrightarrow> iterateGuildStructure env (Some u) pid g
             = (uncategorizedCalls bg bc g (cu_id u) (guild_channels g)
                @ categoriesCalls bg bc g (cu_id u) (guild_channels g), None))
   \<and> (snd (iterateGuildStructure env (Some u) pid g) = None
        \<longrightarrow> fst (iterateGuildStructure env (Some u) pid g)
             = uncategorizedCalls bg bc g (cu_id u) (guild_channels g)
               @ categoriesCalls bg bc g (cu_id u) (guild_channels g))"
proof -
  obtain tr res where ul: "uncategorizedLoop env (Some u) bg bc g (guild_channels g) = (tr, res)"
    by (cases "uncategorizedLoop env (Some u) bg bc g (guild_channels g)")
  note un = uncategorizedLoop_calls [of bg bc g u "guild_channels g" env, unfolded ul]
  note ca = categoriesLoop_calls [of bg bc g u "guild_channels g" env]
  show ?thesis
  proof (cases res)
    case None
    with assms ul have run: "iterateGuildStructure env (Some u) pid g
        = after tr (categoriesLoop env (Some u) bg bc g (guild_channels g))"
      by (simp add: iterateGuildStructure_def)
    from un None have tr: "tr = uncategorizedCalls bg bc g (cu_id u) (guild_channels g)"
      by simp
    show ?thesis unfolding run tr using ca by (auto simp: after_def)
  next
    case (Some e)
    with assms ul have run: "iterateGuildStructure env (Some u) pid g = (tr, Some e)"
      by (simp add: iterateGuildStructure_def)
    from un Some show ?thesis unfolding run by auto
  qed
qed


subsection \<open>What the lists of calls hold\<close>

lemma set_uncategorizedCalls:
  "ev \<in> set (uncategorizedCalls bg bc g uid chans) \<longleftrightarrow>
     (\<exists>c\<in>set chans. ev = OnChannel c \<and> qualifies bg bc g uid c
                     \<and> \<not> truthy_opt (chan_parentID c))"
  by (auto simp: uncategorizedCalls_def)

lemma set_childrenCalls:
  "ev \<in> set (childrenCalls bg bc g uid cat doCat chans) \<longleftrightarrow>
     (ev = OnCategory cat \<and> \<not> doCat \<and> (\<exists>c\<in>set chans. qualifies bg bc g uid c))
     \<or> (\<exists>c\<in>set chans. ev = OnChannel c \<and> qualifies bg bc g uid c)"
proof (induction chans arbitrary: doCat)
  case Nil
  show ?case by (simp add: childrenCalls_Nil)
next
  case (Cons chan rest)
  show ?case
    unfolding childrenCalls_Cons using Cons.IH [of doCat] Cons.IH [of True]
    by (cases "qualifies bg bc g uid chan"; cases doCat) auto
qed

lemma set_categoriesCalls:
  "ev \<in> set (categoriesCalls bg bc g uid cats) \<longleftrightarrow>
     (\<exists>cat\<in>set cats. chan_kind cat = CategoryChannel \<and> uid \<in> set (chan_members cat)
         \<and> ev \<in> set (childrenCalls bg bc g uid cat False (children g cat)))"
  by (auto simp: categoriesCalls_def split: if_splits)

lemma children_parent: "c \<in> set (children g cat) \<Longrightarrow> chan_parentID c = Some (chan_id cat)"
  by (simp add: children_def)

lemma children_subset: "c \<in> set (children g cat) \<Longrightarrow> c \<in> set (guild_channels g)"
  by (simp add: children_def)

lemma distinct_channels:
  "distinct (map chan_id chans) \<Longrightarrow> distinct chans"
  by (simp add: distinct_map)

lemma distinct_uncategorizedCalls:
  assumes "distinct chans"
  shows "distinct (uncategorizedCalls bg bc g uid chans)"
  using assms by (simp add: uncategorizedCalls_def distinct_map inj_on_def)

lemma distinct_childrenCalls:
  assumes "distinct chans"
  shows "distinct (childrenCalls bg bc g uid cat doCat chans)"
proof -
  have "distinct (map OnChannel (filter (qualifies bg bc g uid) chans))"
    using assms by (simp add: distinct_map inj_on_def)
  then show ?thesis
    by (cases "filter (qualifies bg bc g uid) chans") (auto simp: childrenCalls_def)
qed

lemma distinct_categoriesCalls:
  assumes "distinct (map chan_id cats)" and "distinct (guild_channels g)"
  shows "distinct (categoriesCalls bg bc g uid cats)"
  using assms(1)
proof (induction cats)
  case Nil
  show ?case by (simp add: categoriesCalls_Nil)
next
  case (Cons cat rest)
  let ?here = "if chan_kind cat = CategoryChannel \<and> uid \<in> set (chan_members cat)
               then childrenCalls bg bc g uid cat False (children g cat) else []"
  have d1: "distinct ?here"
    using distinct_childrenCalls [of "children g cat" bg bc g uid cat False] assms(2)
    by (simp add: children_def)
  have d2: "distinct (categoriesCalls bg bc g uid rest)" using Cons by simp
  have fresh: "\<forall>cat'\<in>set rest. chan_id cat' \<noteq> chan_id cat"
    using Cons.prems by (auto simp: image_iff)
  have disj: "set ?here \<inter> set (categoriesCalls bg bc g uid rest) = {}"
  proof (rule ccontr)
    assume "set ?here \<inter> set (categoriesCalls bg bc g uid rest) \<noteq> {}"
    then obtain ev where a: "ev \<in> set ?here"
      and b: "ev \<in> set (categoriesCalls bg bc g uid rest)" by auto
    from a have a': "ev \<in> set (childrenCalls bg bc g uid cat False (children g cat))"
      by (auto split: if_splits)
    from b obtain cat' where c': "cat' \<in> set rest"
      and b': "ev \<in> set (childrenCalls bg bc g uid cat' False (children g cat'))"
      unfolding set_categoriesCalls by blast
    from c' fresh have ne: "chan_id cat' \<noteq> chan_id cat" by simp
    then have ne2: "cat' \<noteq> cat" by auto
    have "\<And>c. c \<in> set (children g cat) \<Longrightarrow> c \<in> set (children g cat') \<Longrightarrow> False"
      using ne by (simp add: children_def)
    with a' b' ne2 show False
      unfolding set_childrenCalls by auto
  qed
  show ?case unfolding categoriesCalls_Cons using d1 d2 disj by simp
qed

lemma distinct_walk_calls:
  assumes "distinct (map chan_id (guild_channels g))"
      and "\<forall>c\<in>set (guild_channels g). chan_id c \<noteq> []"
  shows "distinct (uncategorizedCalls bg bc g uid (guild_channels g)
                   @ categoriesCalls bg bc g uid (guild_channels g))"
proof -
  have dc: "distinct (guild_channels g)" using assms(1) by (rule distinct_channels)
  have disj: "set (uncategorizedCalls bg bc g uid (guild_channels g))
              \<inter> set (categoriesCalls bg bc g uid (guild_channels g)) = {}"
  proof (rule ccontr)
    assume "set (uncategorizedCalls bg bc g uid (guild_channels g))
              \<inter> set (categoriesCalls bg bc g uid (guild_channels g)) \<noteq> {}"
    then obtain ev where a: "ev \<in> set (uncategorizedCalls bg bc g uid (guild_channels g))"
      and b: "ev \<in> set (categoriesCalls bg bc g uid (guild_channels g))" by auto
    from a obtain c where ev: "ev = OnChannel c" and np: "\<not> truthy_opt (chan_parentID c)"
      unfolding set_uncategorizedCalls by blast
    from b obtain cat where cat: "cat \<in> set (guild_channels g)"
      and b': "ev \<in> set (childrenCalls bg bc g uid cat False (children g cat))"
      unfolding set_categoriesCalls by blast
    from b' ev have "c \<in> set (children g cat)" unfolding set_childrenCalls by auto
    then have "chan_parentID c = Some (chan_id cat)" by (rule children_parent)
    moreover from cat assms(2) have "chan_id cat \<noteq> []" by simp
    ultimately show False using np by (simp add: truthy_opt_def truthy_def)
  qed
  show ?thesis
    using distinct_uncategorizedCalls [OF dc] distinct_categoriesCalls [OF assms(1) dc] disj
    by simp
qed

lemma find_Some_filter: "find P xs = Some x \<Longrightarrow> \<exists>ys. filter P xs = x # ys"
  by (induction xs) (auto split: if_splits)

lemma categoriesCalls_append:
  "categoriesCalls bg bc g uid (xs @ ys)
     = categoriesCalls bg bc g uid xs @ categoriesCalls bg bc g uid ys"
  by (simp add: categoriesCalls_def)

lemma category_announced_before_first_child:
  assumes "cat \<in> set cats" and "chan_kind cat = CategoryChannel"
      and "uid \<in> set (chan_members cat)"
      and "find (qualifies bg bc g uid) (children g cat) = Some c1"
  shows "\<exists>pre post. categoriesCalls bg bc g uid cats = pre @ OnCategory cat # OnChannel c1 # post
           \<and> (\<forall>c\<in>set (children g cat). qualifies bg bc g uid c
                  \<longrightarrow> OnChannel c \<in> set (OnChannel c1 # post))"
proof -
  from assms(1) obtain xs ys where cats: "cats = xs @ cat # ys" by (auto dest: split_list)
  from find_Some_filter [OF assms(4)] obtain qs
    where qs: "filter (qualifies bg bc g uid) (children g cat) = c1 # qs" by blast
  then have "childrenCalls bg bc g uid cat False (children g cat)
               = OnCategory cat # OnChannel c1 # map OnChannel qs"
    by (simp add: childrenCalls_def)
  then have eq: "categoriesCalls bg bc g uid cats
      = categoriesCalls bg bc g uid xs
        @ OnCategory cat # OnChannel c1 # (map OnChannel qs @ categoriesCalls bg bc g uid ys)"
    unfolding cats categoriesCalls_append categoriesCalls_Cons using assms(2,3) by simp
  have "OnChannel c \<in> set (OnChannel c1 # (map OnChannel qs @ categoriesCalls bg bc g uid ys))"
    if "c \<in> set (children g cat)" and "qualifies bg bc g uid c" for c
  proof -
    from that have "c \<in> set (filter (qualifies bg bc g uid) (children g cat))" by simp
    then have "c = c1 \<or> c \<in> set qs" unfolding qs by simp
    then show ?thesis by auto
  qed
  with eq show ?thesis by blast
qed

lemma prefix_reaches:
  assumes "T @ rest = A @ x # y # B" and "z \<in> set T" and "z \<notin> set A" and "z \<noteq> x"
  shows "\<exists>post. T = A @ x # y # post"
proof -
  from assms(1) have "T @ rest = (A @ [x]) @ (y # B)" by simp
  then obtain us where "(T = (A @ [x]) @ us \<and> us @ rest = y # B)
                        \<or> (T @ us = A @ [x] \<and> rest = us @ (y # B))"
    unfolding append_eq_append_conv2 by blast
  then show ?thesis
  proof
    assume a: "T = (A @ [x]) @ us \<and> us @ rest = y # B"
    show ?thesis
    proof (cases us)
      case Nil
      with a assms(2,3,4) show ?thesis by auto
    next
      case (Cons y' us')
      with a have "y' = y" by simp
      with a Cons show ?thesis by simp
    qed
  next
    assume "T @ us = A @ [x] \<and> rest = us @ (y # B)"
    then have "set T \<subseteq> set (A @ [x])" by (metis set_append Un_upper1)
    with assms(2,3,4) show ?thesis by auto
  qed
qed

lemma child_call_follows_category:
  assumes "distinct (map chan_id (guild_channels g))"
      and "\<forall>c\<in>set (guild_channels g). chan_id c \<noteq> []"
      and "uncategorizedCalls bg bc g uid (guild_channels g)
           @ categoriesCalls bg bc g uid (guild_channels g) = T @ rest"
      and "cat \<in> set (guild_channels g)" and "c \<in> set (children g cat)"
      and "OnChannel c \<in> set T"
  shows "\<exists>c1 pre post. find (qualifies bg bc g uid) (children g cat) = Some c1
           \<and> T = pre @ OnCategory cat # OnChannel c1 # post"
proof -
  let ?U = "uncategorizedCalls bg bc g uid (guild_channels g)"
  let ?C = "categoriesCalls bg bc g uid (guild_channels g)"
  from assms(3,6) have inF: "OnChannel c \<in> set (?U @ ?C)" by simp
  have par: "chan_parentID c = Some (chan_id cat)" using assms(5) by (rule children_parent)
  from assms(2,4) have "chan_id cat \<noteq> []" by simp
  with par have "truthy_opt (chan_parentID c)" by (simp add: truthy_opt_def truthy_def)
  then have "OnChannel c \<notin> set ?U" unfolding set_uncategorizedCalls by auto
  with inF have "OnChannel c \<in> set ?C" by simp
  then obtain cat' where c': "cat' \<in> set (guild_channels g)"
    and k: "chan_kind cat' = CategoryChannel" and mem: "uid \<in> set (chan_members cat')"
    and ch: "OnChannel c \<in> set (childrenCalls bg bc g uid cat' False (children g cat'))"
    unfolding set_categoriesCalls by blast
  from ch have cc: "c \<in> set (children g cat')" and q: "qualifies bg bc g uid c"
    unfolding set_childrenCalls by auto
  from cc have "chan_parentID c = Some (chan_id cat')" by (rule children_parent)
  with par have "chan_id cat' = chan_id cat" by simp
  with assms(1,4) c' have same: "cat' = cat" by (auto simp: distinct_map inj_on_def)
  from assms(5) q have "find (qualifies bg bc g uid) (children g cat) \<noteq> None"
    by (auto simp: find_None_iff)
  then obtain c1 where c1: "find (qualifies bg bc g uid) (children g cat) = Some c1" by auto
  from category_announced_before_first_child [OF assms(4) k [unfolded same] mem [unfolded same] c1]
  obtain pre post where C: "?C = pre @ OnCategory cat # OnChannel c1 # post"
    and inpost: "OnChannel c \<in> set (OnChannel c1 # post)"
    using assms(5) q by blast
  have dF: "distinct (?U @ ?C)" using assms(1,2) by (rule distinct_walk_calls)
  have F: "T @ rest = (?U @ pre) @ OnCategory cat # OnChannel c1 # post"
    using assms(3) C by simp
  from dF inpost have "OnChannel c \<notin> set (?U @ pre)"
    unfolding C by auto
  from prefix_reaches [OF F assms(6) this] obtain post' where
    "T = (?U @ pre) @ OnCategory cat # OnChannel c1 # post'" by auto
  with c1 show ?thesis by blast
qed


lemma distinct_count_le_1: "distinct xs \<Longrightarrow> count_list xs x \<le> 1"
  by (induction xs) auto

lemma distinct_count_1: "distinct xs \<Longrightarrow> x \<in> set xs \<Longrightarrow> count_list xs x = 1"
  by (induction xs) auto

section \<open>Presence translation\<close>

text \<open>
  Claim C10. For every presence update that reaches the activity scan (the puppet exists,
  the presence and its user are present), the status setter is invoked only with a
  non-empty status line, which is the one the scan computed; and when the scan ends with
  an empty status line, the only call made is the presence setter with the mapped home
  presence, so the previous status line of the remote user is left untouched.
\<close>

theorem status_setter_only_for_nonempty_line:
  assumes "has_puppet env puppetId" and "pres_user p = Some u"
  shows "(\<forall>r s. SetUserStatus r s \<in> set (fst (updatePresence env puppetId (Some p)))
            \<longrightarrow> s \<noteq> [] \<and> scanActivities [] (pres_activities p) = Some s)
       \<and> (scanActivities [] (pres_activities p) = Some []
            \<longrightarrow> fst (updatePresence env puppetId (Some p))
                = [SetUserPresence (getRemoteUser env puppetId u)
                     (matrixPresence (pres_status p))])"
  using assms
  by (auto simp: updatePresence_def truthy_def Let_def split: option.splits)

theorem status_setter_only_for_nonempty_line_witness:
  "has_puppet quietPresenceEnv 1
   \<and> pres_user \<lparr>pres_user = Some ''u1'', pres_status = Dnd,
                 pres_activities = [blankCustom]\<rparr> = Some ''u1''
   \<and> scanActivities [] [blankCustom] = Some []
   \<and> fst (updatePresence quietPresenceEnv 1
        (Some \<lparr>pres_user = Some ''u1'', pres_status = Dnd, pres_activities = [blankCustom]\<rparr>))
      = [SetUserPresence ''u1'' MxUnavailable]"
  using status_setter_only_for_nonempty_line
          [of quietPresenceEnv 1
              "\<lparr>pres_user = Some ''u1'', pres_status = Dnd, pres_activities = [blankCustom]\<rparr>"
              "''u1''"]
  by (simp add: quietPresenceEnv_def blankCustom_def statusParts_def truthy_opt_def)

text \<open>
  Claim C2. The claim: for a presence with a user, the translation stops scanning at the
  first non-empty status line and then yields the mapped home presence and that status
  line, however many activities the list has. The code leaves the scan with \<open>return\<close>,
  which ends the whole function: with two activities of which the first renders
  \<open>Playing Chess\<close>, neither setter is called, while the same presence with that one
  activity alone sets both.
\<close>

theorem early_return_drops_presence_update:
  "updatePresence quietPresenceEnv 1
     (Some \<lparr>pres_user = Some ''u1'', pres_status = Online,
            pres_activities = [playingChess, listeningRadio]\<rparr>) = ([], None)
   \<and> updatePresence quietPresenceEnv 1
     (Some \<lparr>pres_user = Some ''u1'', pres_status = Online,
            pres_activities = [playingChess]\<rparr>)
     = ([SetUserPresence ''u1'' MxOnline, SetUserStatus ''u1'' ''Playing Chess''], None)"
  by code_simp

section \<open>Resolvers\<close>

text \<open>
  Claim C4, as stated: a failure of the direct network fetch is surfaced as a resolution
  miss (null), not as a thrown error. The awaited fetch is not guarded: for a client in no
  guild and without friends whose fetch rejects, the rejection is the outcome of
  \<open>getUserById\<close>, and the outcome is not null.
\<close>

theorem getUserById_fetch_rejection_propagates:
  "getUserById lonelyClient ''42'' = Inl (ApiError ''Unknown User'')
   \<and> getUserById lonelyClient ''42'' \<noteq> Inr None"
  by (simp add: getUserById_def lonelyClient_def)

text \<open>
  Claim C4, amended. \<open>getUserById\<close> returns null exactly when no guild has a member of
  that id, the acting account has no friend of that id, and the direct network fetch
  completes without a user. When the first two sources hold no such user and the fetch
  rejects, that rejection is thrown to the caller.
\<close>

theorem getUserById_null_iff:
  "(getUserById cl i = Inr None \<longleftrightarrow>
      (\<forall>g\<in>set (client_guilds cl). \<forall>m\<in>set (guild_members g). user_id m \<noteq> i)
      \<and> (\<exists>cu. client_user cl = Some cu \<and> (\<forall>f\<in>set (cu_friends cu). user_id f \<noteq> i))
      \<and> users_fetch cl i = Inr None)
   \<and> ((\<forall>g\<in>set (client_guilds cl). \<forall>m\<in>set (guild_members g). user_id m \<noteq> i)
      \<and> (\<exists>cu. client_user cl = Some cu \<and> (\<forall>f\<in>set (cu_friends cu). user_id f \<noteq> i))
      \<and> users_fetch cl i = Inl e
      \<longrightarrow> getUserById cl i = Inl e)"
proof -
  let ?G = "\<forall>g\<in>set (client_guilds cl). \<forall>m\<in>set (guild_members g). user_id m \<noteq> i"
  have G: "findGuildMember (client_guilds cl) i = None \<longleftrightarrow> ?G"
    by (rule findGuildMember_None)
  show ?thesis
  proof (cases "findGuildMember (client_guilds cl) i")
    case (Some u)
    with G have "\<not> ?G" by simp
    with Some show ?thesis by (simp add: getUserById_def)
  next
    case None
    with G have g: "?G" by simp
    show ?thesis
    proof (cases "client_user cl")
      case N: None
      with None show ?thesis by (simp add: getUserById_def)
    next
      case (Some cu)
      show ?thesis
      proof (cases "find (\<lambda>f. user_id f = i) (cu_friends cu)")
        case F1: None
        then have "\<forall>f\<in>set (cu_friends cu). user_id f \<noteq> i"
          by (auto simp: find_None_iff)
        with None Some F1 g show ?thesis
          by (simp add: getUserById_def split: sum.splits option.splits)
      next
        case F2: (Some v)
        then have "\<not> (\<forall>f\<in>set (cu_friends cu). user_id f \<noteq> i)"
          by (auto dest: find_SomeD)
        with None Some F2 show ?thesis by (simp add: getUserById_def)
      qed
    qed
  qed
qed

theorem getUserById_null_iff_witness:
  "getUserById (lonelyClient\<lparr>users_fetch := (\<lambda>_. Inr None)\<rparr>) ''42'' = Inr None
   \<and> getUserById friendlyClient ''42'' \<noteq> Inr None
   \<and> getUserById lonelyClient ''42'' = Inl (ApiError ''Unknown User'')"
  using getUserById_null_iff [of "lonelyClient\<lparr>users_fetch := (\<lambda>_. Inr None)\<rparr>" "''42''" TypeError]
        getUserById_null_iff [of friendlyClient "''42''" TypeError]
        getUserById_null_iff [of lonelyClient "''42''" "ApiError ''Unknown User''"]
  by (simp add: lonelyClient_def friendlyClient_def bob_def)

text \<open>
  Claim C7, as stated: for a DM-prefixed id the channel resolver returns a direct-message
  channel if and only if the user resolution succeeds, and null otherwise. For the client
  whose fetch rejects, the user resolution does not succeed, yet the resolver does not
  return null: the rejection is thrown.
\<close>

theorem getDiscordChan_dm_rejection_propagates:
  "getDiscordChan lonelyClient ''dm-42'' = Inl (ApiError ''Unknown User'')
   \<and> getDiscordChan lonelyClient ''dm-42'' \<noteq> Inr None"
  by (simp add: getDiscordChan_def getUserById_def lonelyClient_def startsWith_def)

text \<open>
  Claim C7, amended. For every id that starts with the DM prefix, the channel resolver
  strips the prefix and resolves the rest with \<open>getUserById\<close>. It returns a channel
  exactly when that resolution returns a user and opening the direct-message channel with
  that user succeeds, and the channel is the one opened; it returns null exactly when the
  resolution returns null; it throws exactly when the resolution or the opening throws.
\<close>

theorem getDiscordChan_dm:
  assumes "startsWith i ''dm-''"
  shows "(\<forall>c. getDiscordChan cl i = Inr (Some c) \<longleftrightarrow>
            (\<exists>u. getUserById cl (drop 3 i) = Inr (Some u) \<and> createDM cl u = Inr c))
       \<and> (getDiscordChan cl i = Inr None \<longleftrightarrow> getUserById cl (drop 3 i) = Inr None)
       \<and> (\<forall>e. getDiscordChan cl i = Inl e \<longleftrightarrow>
            getUserById cl (drop 3 i) = Inl e
            \<or> (\<exists>u. getUserById cl (drop 3 i) = Inr (Some u) \<and> createDM cl u = Inl e))"
proof -
  have tok: "drop (length ''dm-'') i = drop 3 i"
    by (simp add: numeral_3_eq_3)
  have res: "getDiscordChan cl i =
      (case getUserById cl (drop 3 i) of
         Inl e \<Rightarrow> Inl e
       | Inr None \<Rightarrow> Inr None
       | Inr (Some u) \<Rightarrow> (case createDM cl u of Inl e \<Rightarrow> Inl e | Inr c \<Rightarrow> Inr (Some c)))"
    using assms unfolding getDiscordChan_def Let_def tok by simp
  show ?thesis
    unfolding res by (auto split: sum.splits option.splits)
qed

theorem getDiscordChan_dm_witness:
  "startsWith ''dm-42'' ''dm-''
   \<and> getUserById friendlyClient ''42'' = Inr (Some bob)
   \<and> getDiscordChan friendlyClient ''dm-42''
       = Inr (Some \<lparr>chan_id = ''dm-of-42'', chan_kind = DMChannel,
                     chan_parentID = None, chan_members = []\<rparr>)
   \<and> getDiscordChan friendlyClient ''dm-7'' = Inr None"
  using getDiscordChan_dm [of "''dm-42''" friendlyClient]
        getDiscordChan_dm [of "''dm-7''" friendlyClient]
  by (simp add: startsWith_def getUserById_def friendlyClient_def lonelyClient_def bob_def)

section \<open>Delivery\<close>

text \<open>
  Claim C1, as stated: delivery fails only if every mechanism whose precondition holds
  raises, and a fatal delivery failure is possible only when the last-resort mechanism
  itself throws. On a guild text channel that has the webhook, a rejected webhook send is
  the outcome of the whole call: no channel send is attempted after it, although for the
  same input neither the embed mechanism (the account is a bot) nor the prefixed
  plain-text mechanism would fail.
\<close>

theorem webhook_send_failure_is_fatal:
  "sendToDiscord brokenHookEnv textChan (MsgString ''hi'') (Some alice) None
     = ([LogDebug ''Sending something to discord...'',
         LogDebug ''Trying to send as webhook...'',
         FetchWebhooks,
         HookSend matrixHook (Some ''hi'')
           \<lparr>opt_username = ''a_b'', opt_avatarURL = None, opt_embeds = [], opt_files = [],
            opt_split = True\<rparr>],
        Inl (ApiError ''Unknown Webhook''))
   \<and> snd (sendAsEmbed brokenHookEnv (MsgString ''hi'') alice None) = Inr 2
   \<and> snd (sendPrefixed brokenHookEnv (MsgString ''hi'') alice None) = Inr 2"
  by (simp add: sendToDiscord_def sendWithoutHook_def sendAsEmbed_def embedBody_def
        embedReply_def replyDescription_def findHook_def makeSendThing_def orUndefined_def
        sendAsWebhook_def sendPrefixed_def prefixedBody_def replySuffix_def
        setDescription_def setAuthor_def resolveString_def
        truthy_opt_def truthy_def newEmbed_def emit_def after_def
        deniedBotEnv_def brokenHookEnv_def hookEnv_def matrixHook_def textChan_def alice_def)

text \<open>
  Claim C1, amended. For every channel, payload, sending identity and reply context:

  \<^item> delivery attempts at most one send, and the outcome of the call is the outcome of that
    send, so a rejected send makes the call fail with that rejection, whichever mechanism
    made it, and no other mechanism is tried after it;
  \<^item> when no send is attempted the call fails, and the error was raised while the selected
    mechanism prepared its message: an escape call was rejected, the acting account or the
    author of the reply was null, or the name of that author was empty;
  \<^item> the mechanism is the first in priority order whose precondition holds: without a
    sending identity the payload is sent to the channel as it is (with the reply context
    when the account is a bot); with a sending identity on a guild text channel whose
    webhook is found or created, the one send goes through that webhook; otherwise a bot
    account sends an embed to the channel and a non-bot account sends a text;
  \<^item> it never fails merely because webhook lookup or creation is unavailable: when every
    send and every escape call succeeds, the acting account is present and a reply with a
    description has an author with a non-empty name, delivery succeeds.
\<close>

theorem delivery_fails_only_in_selected_mechanism:
  "length (filter isSend (fst (sendToDiscord env chan msg asUser r))) \<le> 1
   \<and> (\<forall>t rp. ChanSend t rp \<in> set (fst (sendToDiscord env chan msg asUser r))
         \<longrightarrow> snd (sendToDiscord env chan msg asUser r) = chanSend env t rp)
   \<and> (\<forall>h c opts. HookSend h c opts \<in> set (fst (sendToDiscord env chan msg asUser r))
         \<longrightarrow> snd (sendToDiscord env chan msg asUser r) = hookSend env h c opts)
   \<and> (filter isSend (fst (sendToDiscord env chan msg asUser r)) = [] \<longrightarrow>
         (\<exists>e. snd (sendToDiscord env chan msg asUser r) = Inl e
            \<and> ((e = TypeError
                 \<and> (acting_user env = None
                    \<or> (\<exists>rp d. r = Some rp \<and> emb_description rp = Some d \<and> d \<noteq> []
                           \<and> emb_author rp = None)))
               \<or> (e = RangeError
                 \<and> (\<exists>rp d a. r = Some rp \<and> emb_description rp = Some d \<and> d \<noteq> []
                        \<and> emb_author rp = Some a \<and> author_name a = []))
               \<or> (\<exists>s. Escape s \<in> set (fst (sendToDiscord env chan msg asUser r))
                      \<and> parseMatrixMessage env s = Inl e))))
   \<and> (asUser = None \<and> (r = None \<or> acting_user env \<noteq> None) \<longrightarrow>
         filter isSend (fst (sendToDiscord env chan msg asUser r))
           = [ChanSend
                (case msg of MsgString s \<Rightarrow> SendString s | MsgEmbed m \<Rightarrow> SendEmbed m
                 | MsgFile f \<Rightarrow> SendAttachment (file_buffer f) (file_filename f))
                (case r of None \<Rightarrow> None
                 | Some rp \<Rightarrow> (case acting_user env of None \<Rightarrow> None
                               | Some cu \<Rightarrow> if cu_bot cu then Some rp else None))])
   \<and> (\<forall>u hs h. asUser = Some u \<and> chan_kind chan = TextChannel
         \<and> fetchWebhooks env = Inr hs
         \<and> (find (\<lambda>h. hook_name h = ''_matrix'') hs = Some h
            \<or> (find (\<lambda>h. hook_name h = ''_matrix'') hs = None
               \<and> createWebhook env ''_matrix'' = Inr h)) \<longrightarrow>
         filter isSend (fst (sendToDiscord env chan msg asUser r))
           = [HookSend h
                (case msg of MsgString s \<Rightarrow> Some s | MsgEmbed m \<Rightarrow> None | MsgFile f \<Rightarrow> None)
                \<lparr>opt_username = su_displayname u,
                 opt_avatarURL = (case su_avatarUrl u of None \<Rightarrow> None
                                  | Some a \<Rightarrow> if a = [] then None else Some a),
                 opt_embeds = (case msg of MsgString s \<Rightarrow> [] | MsgEmbed m \<Rightarrow> [m]
                               | MsgFile f \<Rightarrow> [])
                              @ (case r of None \<Rightarrow> [] | Some rp \<Rightarrow> [rp]),
                 opt_files = (case msg of MsgString s \<Rightarrow> [] | MsgEmbed m \<Rightarrow> []
                              | MsgFile f \<Rightarrow> [SendAttachment (file_buffer f) (file_filename f)]),
                 opt_split = True\<rparr>])
   \<and> (\<forall>u cu. asUser = Some u
         \<and> (chan_kind chan \<noteq> TextChannel
            \<or> (\<exists>e. fetchWebhooks env = Inl e)
            \<or> (\<exists>hs e. fetchWebhooks env = Inr hs
                  \<and> find (\<lambda>h. hook_name h = ''_matrix'') hs = None
                  \<and> createWebhook env ''_matrix'' = Inl e))
         \<and> acting_user env = Some cu \<longrightarrow>
         (\<forall>ev\<in>set (fst (sendToDiscord env chan msg asUser r)). isSend ev \<longrightarrow>
            (if cu_bot cu then \<exists>emb. ev = ChanSend (SendEmbed emb) None
             else \<exists>t. ev = ChanSend (SendString t) None)))
   \<and> ((\<forall>t rp. \<exists>m. chanSend env t rp = Inr m)
        \<and> (\<forall>h c opts. \<exists>m. hookSend env h c opts = Inr m)
        \<and> (\<forall>s. \<exists>t. parseMatrixMessage env s = Inr t)
        \<and> acting_user env \<noteq> None
        \<and> (\<forall>rp d. r = Some rp \<and> emb_description rp = Some d \<and> d \<noteq> []
               \<longrightarrow> (\<exists>a. emb_author rp = Some a \<and> author_name a \<noteq> []))
       \<longrightarrow> (\<exists>m. snd (sendToDiscord env chan msg asUser r) = Inr m))"
proof -
  let ?R = "sendToDiscord env chan msg asUser r"
  note props = sendToDiscord_props [of env chan msg asUser r]
  have direct: "filter isSend (fst ?R)
           = [ChanSend
                (case msg of MsgString s \<Rightarrow> SendString s | MsgEmbed m \<Rightarrow> SendEmbed m
                 | MsgFile f \<Rightarrow> SendAttachment (file_buffer f) (file_filename f))
                (case r of None \<Rightarrow> None
                 | Some rp \<Rightarrow> (case acting_user env of None \<Rightarrow> None
                               | Some cu \<Rightarrow> if cu_bot cu then Some rp else None))]"
    if "asUser = None" and "r = None \<or> acting_user env \<noteq> None"
  proof -
    obtain pre where pre: "filter isSend pre = []"
      and run: "sendToDiscord env chan msg None r
                 = after pre (sendDirect env (makeSendThing msg) r)"
      using direct_run [of env chan msg r] by blast
    have "filter isSend (fst (sendDirect env (makeSendThing msg) r))
           = [ChanSend (makeSendThing msg)
                (case r of None \<Rightarrow> None
                 | Some rp \<Rightarrow> (case acting_user env of None \<Rightarrow> None
                               | Some cu \<Rightarrow> if cu_bot cu then Some rp else None))]"
      using that(2) by (auto simp: sendDirect_cases split: option.splits)
    then show ?thesis
      unfolding that(1) run after_sends [OF pre] makeSendThing_cases .
  qed
  have hook: "filter isSend (fst ?R)
           = [HookSend h
                (case msg of MsgString s \<Rightarrow> Some s | MsgEmbed m \<Rightarrow> None | MsgFile f \<Rightarrow> None)
                \<lparr>opt_username = su_displayname u,
                 opt_avatarURL = (case su_avatarUrl u of None \<Rightarrow> None
                                  | Some a \<Rightarrow> if a = [] then None else Some a),
                 opt_embeds = (case msg of MsgString s \<Rightarrow> [] | MsgEmbed m \<Rightarrow> [m]
                               | MsgFile f \<Rightarrow> [])
                              @ (case r of None \<Rightarrow> [] | Some rp \<Rightarrow> [rp]),
                 opt_files = (case msg of MsgString s \<Rightarrow> [] | MsgEmbed m \<Rightarrow> []
                              | MsgFile f \<Rightarrow> [SendAttachment (file_buffer f) (file_filename f)]),
                 opt_split = True\<rparr>]"
    if "asUser = Some u" and "chan_kind chan = TextChannel" and "fetchWebhooks env = Inr hs"
      and "find (\<lambda>h. hook_name h = ''_matrix'') hs = Some h
            \<or> (find (\<lambda>h. hook_name h = ''_matrix'') hs = None
               \<and> createWebhook env ''_matrix'' = Inr h)"
    for u hs h
  proof -
    from findHook_obtained [OF that(3,4)] obtain tr where fh: "findHook env = (tr, Some h)"
      by (cases "findHook env") auto
    from relay_with_hook [OF that(2) fh, of msg u r]
    obtain pre where pre: "filter isSend pre = []"
      and run: "sendToDiscord env chan msg (Some u) r
                 = after pre (sendAsWebhook env h (makeSendThing msg) u r)"
      by blast
    show ?thesis
      unfolding that(1) run after_sends [OF pre] sendAsWebhook_cases by simp
  qed
  have nohook: "if cu_bot cu then \<exists>emb. ev = ChanSend (SendEmbed emb) None
                else \<exists>t. ev = ChanSend (SendString t) None"
    if "asUser = Some u"
      and "chan_kind chan \<noteq> TextChannel
            \<or> (\<exists>e. fetchWebhooks env = Inl e)
            \<or> (\<exists>hs e. fetchWebhooks env = Inr hs
                  \<and> find (\<lambda>h. hook_name h = ''_matrix'') hs = None
                  \<and> createWebhook env ''_matrix'' = Inl e)"
      and "acting_user env = Some cu"
      and "ev \<in> set (fst ?R)" and "isSend ev"
    for u cu ev
  proof -
    have "chan_kind chan \<noteq> TextChannel \<or> snd (findHook env) = None"
    proof (cases "chan_kind chan = TextChannel")
      case True
      with that(2) have "(\<exists>e. fetchWebhooks env = Inl e)
            \<or> (\<exists>hs e. fetchWebhooks env = Inr hs
                  \<and> find (\<lambda>h. hook_name h = ''_matrix'') hs = None
                  \<and> createWebhook env ''_matrix'' = Inl e)" by simp
      then show ?thesis by (simp add: findHook_unavailable)
    qed simp
    from relay_without_hook [OF this, of msg u r]
    obtain pre where pre: "filter isSend pre = []" "escapeCalls pre = []"
      and run: "sendToDiscord env chan msg (Some u) r = after pre (sendWithoutHook env msg u r)"
      by blast
    from after_quiet [OF pre that(4) [unfolded that(1) run] that(5)]
    have m1: "ev \<in> set (fst (sendWithoutHook env msg u r))" by simp
    show ?thesis
    proof (cases "cu_bot cu")
      case True
      from m1 that(5) have "ev \<in> set (fst (sendAsEmbed env msg u r))"
        unfolding sendWithoutHook_bot [OF that(3) True] by auto
      from sendAsEmbed_sent [OF this that(5)] True show ?thesis by auto
    next
      case False
      from m1 that(5) have "ev \<in> set (fst (sendPrefixed env msg u r))"
        unfolding sendWithoutHook_user [OF that(3) False] by auto
      from sendPrefixed_shape [OF this that(5)] False show ?thesis by auto
    qed
  qed
  have ok: "\<exists>m. snd ?R = Inr m"
    if cs: "\<forall>t rp. \<exists>m. chanSend env t rp = Inr m"
      and hs: "\<forall>h c opts. \<exists>m. hookSend env h c opts = Inr m"
      and ps: "\<forall>s. \<exists>t. parseMatrixMessage env s = Inr t"
      and au: "acting_user env \<noteq> None"
      and ra: "\<forall>rp d. r = Some rp \<and> emb_description rp = Some d \<and> d \<noteq> []
               \<longrightarrow> (\<exists>a. emb_author rp = Some a \<and> author_name a \<noteq> [])"
  proof (cases "filter isSend (fst ?R)")
    case Nil
    with props obtain e where "snd ?R = Inl e"
      and "(e = TypeError
                 \<and> (acting_user env = None
                    \<or> (\<exists>rp d. r = Some rp \<and> emb_description rp = Some d \<and> d \<noteq> []
                           \<and> emb_author rp = None)))
               \<or> (e = RangeError
                 \<and> (\<exists>rp d a. r = Some rp \<and> emb_description rp = Some d \<and> d \<noteq> []
                        \<and> emb_author rp = Some a \<and> author_name a = []))
               \<or> (\<exists>s. Escape s \<in> set (fst ?R) \<and> parseMatrixMessage env s = Inl e)"
      by blast
    with au ra ps have False by (metis Inl_Inr_False option.distinct(1) option.inject)
    then show ?thesis ..
  next
    case (Cons ev evs)
    then have "ev \<in> set (filter isSend (fst ?R))" by simp
    then have mem: "ev \<in> set (fst ?R)" and snd: "isSend ev" by simp_all
    show ?thesis
    proof (cases ev)
      case (ChanSend t rp)
      with mem props have "snd ?R = chanSend env t rp" by blast
      with cs show ?thesis by simp
    next
      case (HookSend h c opts)
      with mem props have "snd ?R = hookSend env h c opts" by blast
      with hs show ?thesis by simp
    qed (use snd in simp_all)
  qed
  show ?thesis
    using props direct hook nohook ok by (intro conjI allI impI ballI) blast+
qed

theorem delivery_fails_only_in_selected_mechanism_witness:
  "fetchWebhooks deniedBotEnv = Inl (ApiError ''Missing Permissions'')
   \<and> snd (sendToDiscord deniedBotEnv textChan (MsgString ''hi'') (Some alice) None) = Inr 2
   \<and> fetchWebhooks brokenHookEnv = Inr [matrixHook]
   \<and> find (\<lambda>h. hook_name h = ''_matrix'') [matrixHook] = Some matrixHook
   \<and> filter isSend
        (fst (sendToDiscord brokenHookEnv textChan (MsgString ''hi'') (Some alice) None))
       = [HookSend matrixHook (Some ''hi'')
           \<lparr>opt_username = ''a_b'', opt_avatarURL = None, opt_embeds = [], opt_files = [],
            opt_split = True\<rparr>]
   \<and> snd (sendToDiscord brokenHookEnv textChan (MsgString ''hi'') (Some alice) None)
       = Inl (ApiError ''Unknown Webhook'')"
  using delivery_fails_only_in_selected_mechanism
          [of deniedBotEnv textChan "MsgString ''hi''" "Some alice" None]
        delivery_fails_only_in_selected_mechanism
          [of brokenHookEnv textChan "MsgString ''hi''" "Some alice" None]
  by (simp add: sendToDiscord_def sendWithoutHook_def sendAsEmbed_def embedBody_def
        embedReply_def replyDescription_def findHook_def makeSendThing_def orUndefined_def
        sendAsWebhook_def setDescription_def setAuthor_def resolveString_def
        truthy_opt_def truthy_def newEmbed_def emit_def after_def
        deniedBotEnv_def brokenHookEnv_def hookEnv_def matrixHook_def textChan_def alice_def)

text \<open>
  Claim C3, as stated: in every relay path the display name and the file name are passed
  through the escape operation before they are inserted. On a guild text channel that has
  the webhook, the display name \<open>a_b\<close> becomes the username of the webhook message as
  it is, and no escape call is made at all, although the escape operation would change
  it.
\<close>

theorem webhook_username_is_not_escaped:
  "sendToDiscord hookEnv textChan (MsgString ''hi'') (Some alice) None
     = ([LogDebug ''Sending something to discord...'',
         LogDebug ''Trying to send as webhook...'',
         FetchWebhooks,
         HookSend matrixHook (Some ''hi'')
           \<lparr>opt_username = ''a_b'', opt_avatarURL = None, opt_embeds = [], opt_files = [],
            opt_split = True\<rparr>],
        Inr 1)
   \<and> escapeCalls (fst (sendToDiscord hookEnv textChan (MsgString ''hi'') (Some alice) None)) = []
   \<and> parseMatrixMessage hookEnv (su_displayname alice) = Inr (''a'' @ [CHR 0x5C] @ ''_b'')"
  by (simp add: sendToDiscord_def findHook_def makeSendThing_def orUndefined_def
        sendAsWebhook_def truthy_opt_def emit_def after_def backslashEscape_def
        deniedBotEnv_def hookEnv_def matrixHook_def textChan_def alice_def)

text \<open>
  Claim C3, amended. For every relayed send, every send the call makes has one of three
  shapes. Through the webhook: the username is the display name unescaped, a file is
  attached under its file name unescaped, and no escape call is made. As an embed (bot
  account): the author name is the display name unescaped, and the name of a non-image
  file, inserted into the description, is the result of the escape operation. As
  prefixed plain text (non-bot account): the display name in the bold prefix is the
  result of the escape operation, and so is the file name (of a file, or the title of an
  embed with an image) between the backquotes.
\<close>

theorem relay_insertions:
  "\<forall>ev\<in>set (fst (sendToDiscord env chan msg (Some u) r)). isSend ev \<longrightarrow>
     (chan_kind chan = TextChannel
      \<and> escapeCalls (fst (sendToDiscord env chan msg (Some u) r)) = []
      \<and> (\<exists>h c opts. ev = HookSend h c opts \<and> opt_username opts = su_displayname u
            \<and> (\<forall>f. msg = MsgFile f
                  \<longrightarrow> opt_files opts = [SendAttachment (file_buffer f) (file_filename f)])))
   \<or> (\<exists>cu emb a. acting_user env = Some cu \<and> cu_bot cu
         \<and> ev = ChanSend (SendEmbed emb) None
         \<and> emb_author emb = Some a \<and> author_name a = su_displayname u
         \<and> (\<forall>f. msg = MsgFile f \<and> \<not> file_isImage f \<longrightarrow>
               escapeCalls (fst (sendToDiscord env chan msg (Some u) r)) = [file_filename f]
               \<and> (\<exists>fn. parseMatrixMessage env (file_filename f) = Inr fn
                    \<and> emb_description emb
                        = Some (''Uploaded a file `'' @ fn @ ''`: '' @ file_url f))))
   \<or> (\<exists>cu name body. acting_user env = Some cu \<and> \<not> cu_bot cu
         \<and> parseMatrixMessage env (su_displayname u) = Inr name
         \<and> ev = ChanSend (SendString (body @ replySuffix r)) None
         \<and> (case msg of
               MsgString s \<Rightarrow>
                 escapeCalls (fst (sendToDiscord env chan msg (Some u) r)) = [su_displayname u]
                 \<and> body = ''**'' @ name @ ''**: '' @ s
             | MsgEmbed m \<Rightarrow>
                (case emb_image m of
                   None \<Rightarrow> escapeCalls (fst (sendToDiscord env chan msg (Some u) r))
                             = [su_displayname u]
                           \<and> body = []
                 | Some url \<Rightarrow>
                    if truthy_opt (emb_title m)
                    then escapeCalls (fst (sendToDiscord env chan msg (Some u) r))
                           = [su_displayname u, the (emb_title m)]
                         \<and> (\<exists>fn. parseMatrixMessage env (the (emb_title m)) = Inr fn
                              \<and> body = ''**'' @ name @ ''** uploaded a file `'' @ fn @ ''`: ''
                                        @ ''[object Object]'')
                    else escapeCalls (fst (sendToDiscord env chan msg (Some u) r))
                           = [su_displayname u]
                         \<and> body = ''**'' @ name @ ''** uploaded a file: ''
                                   @ ''[object Object]'')
             | MsgFile f \<Rightarrow>
                 escapeCalls (fst (sendToDiscord env chan msg (Some u) r))
                   = [su_displayname u, file_filename f]
                 \<and> (\<exists>fn. parseMatrixMessage env (file_filename f) = Inr fn
                      \<and> body = ''**'' @ name @ ''** uploaded a file `'' @ fn @ ''`: ''
                                @ file_url f)))"
proof (intro ballI impI)
  fix ev
  assume mem: "ev \<in> set (fst (sendToDiscord env chan msg (Some u) r))" and snd: "isSend ev"
  let ?R = "sendToDiscord env chan msg (Some u) r"
  let ?W = "chan_kind chan = TextChannel
      \<and> escapeCalls (fst ?R) = []
      \<and> (\<exists>h c opts. ev = HookSend h c opts \<and> opt_username opts = su_displayname u
            \<and> (\<forall>f. msg = MsgFile f
                  \<longrightarrow> opt_files opts = [SendAttachment (file_buffer f) (file_filename f)]))"
  let ?E = "\<exists>cu emb a. acting_user env = Some cu \<and> cu_bot cu
         \<and> ev = ChanSend (SendEmbed emb) None
         \<and> emb_author emb = Some a \<and> author_name a = su_displayname u
         \<and> (\<forall>f. msg = MsgFile f \<and> \<not> file_isImage f \<longrightarrow>
               escapeCalls (fst ?R) = [file_filename f]
               \<and> (\<exists>fn. parseMatrixMessage env (file_filename f) = Inr fn
                    \<and> emb_description emb
                        = Some (''Uploaded a file `'' @ fn @ ''`: '' @ file_url f)))"
  let ?P = "\<exists>cu name body. acting_user env = Some cu \<and> \<not> cu_bot cu
         \<and> parseMatrixMessage env (su_displayname u) = Inr name
         \<and> ev = ChanSend (SendString (body @ replySuffix r)) None
         \<and> (case msg of
               MsgString s \<Rightarrow>
                 escapeCalls (fst ?R) = [su_displayname u]
                 \<and> body = ''**'' @ name @ ''**: '' @ s
             | MsgEmbed m \<Rightarrow>
                (case emb_image m of
                   None \<Rightarrow> escapeCalls (fst ?R) = [su_displayname u] \<and> body = []
                 | Some url \<Rightarrow>
                    if truthy_opt (emb_title m)
                    then escapeCalls (fst ?R) = [su_displayname u, the (emb_title m)]
                         \<and> (\<exists>fn. parseMatrixMessage env (the (emb_title m)) = Inr fn
                              \<and> body = ''**'' @ name @ ''** uploaded a file `'' @ fn @ ''`: ''
                                        @ ''[object Object]'')
                    else escapeCalls (fst ?R) = [su_displayname u]
                         \<and> body = ''**'' @ name @ ''** uploaded a file: ''
                                   @ ''[object Object]'')
             | MsgFile f \<Rightarrow>
                 escapeCalls (fst ?R) = [su_displayname u, file_filename f]
                 \<and> (\<exists>fn. parseMatrixMessage env (file_filename f) = Inr fn
                      \<and> body = ''**'' @ name @ ''** uploaded a file `'' @ fn @ ''`: ''
                                @ file_url f))"
  obtain tr hk where fh: "findHook env = (tr, hk)" by (cases "findHook env")
  show "?W \<or> ?E \<or> ?P"
  proof (cases "chan_kind chan = TextChannel \<and> hk \<noteq> None")
    case True
    then obtain h where h: "hk = Some h" by auto
    from relay_with_hook [of chan env tr h msg u r] True fh h
    obtain pre where pre: "filter isSend pre = []" "escapeCalls pre = []"
      and run: "?R = after pre (sendAsWebhook env h (makeSendThing msg) u r)" by auto
    obtain c opts where sh: "sendAsWebhook env h (makeSendThing msg) u r
                               = ([HookSend h c opts], hookSend env h c opts)"
      and un: "opt_username opts = su_displayname u"
      and fl: "\<forall>b f. makeSendThing msg = SendAttachment b f \<longrightarrow> opt_files opts = [SendAttachment b f]"
      using sendAsWebhook_shape [of env h "makeSendThing msg" u r] by blast
    from after_quiet [OF pre mem [unfolded run] snd]
    have "ev = HookSend h c opts" and "escapeCalls (fst ?R) = []"
      unfolding run sh by simp_all
    moreover have "\<forall>f. msg = MsgFile f
                  \<longrightarrow> opt_files opts = [SendAttachment (file_buffer f) (file_filename f)]"
      using fl by (simp add: makeSendThing_def)
    ultimately have ?W using True un by blast
    then show ?thesis by blast
  next
    case False
    then have "chan_kind chan \<noteq> TextChannel \<or> snd (findHook env) = None" using fh by auto
    from relay_without_hook [OF this, of msg u r]
    obtain pre where pre: "filter isSend pre = []" "escapeCalls pre = []"
      and run: "?R = after pre (sendWithoutHook env msg u r)" by auto
    from after_quiet [OF pre mem [unfolded run] snd]
    have m1: "ev \<in> set (fst (sendWithoutHook env msg u r))"
      and e1: "escapeCalls (fst ?R) = escapeCalls (fst (sendWithoutHook env msg u r))"
      unfolding run by simp_all
    show ?thesis
    proof (cases "acting_user env")
      case None
      with m1 show ?thesis by (simp add: sendWithoutHook_def)
    next
      case (Some cu)
      show ?thesis
      proof (cases "cu_bot cu")
        case True
        with Some have wo: "sendWithoutHook env msg u r
            = emit (LogDebug ''Trying to send as embed...'') (sendAsEmbed env msg u r)"
          by (simp add: sendWithoutHook_def)
        from m1 snd have m2: "ev \<in> set (fst (sendAsEmbed env msg u r))"
          unfolding wo by auto
        have e2: "escapeCalls (fst ?R) = escapeCalls (fst (sendAsEmbed env msg u r))"
          unfolding e1 wo by simp
        from sendAsEmbed_sent [OF m2 snd]
        obtain emb a where "ev = ChanSend (SendEmbed emb) None"
          and "emb_author emb = Some a" and "author_name a = su_displayname u"
          and "\<forall>f. msg = MsgFile f \<and> \<not> file_isImage f \<longrightarrow>
               escapeCalls (fst (sendAsEmbed env msg u r)) = [file_filename f]
               \<and> (\<exists>fn. parseMatrixMessage env (file_filename f) = Inr fn
                    \<and> emb_description emb
                        = Some (''Uploaded a file `'' @ fn @ ''`: '' @ file_url f))"
          by (cases msg) (auto split: if_splits)
        then have ?E
          unfolding e2 using Some True by blast
        then show ?thesis by blast
      next
        case False
        with Some have wo: "sendWithoutHook env msg u r
            = emit (LogDebug ''Prepending sender information to send the message out...'')
                (sendPrefixed env msg u r)"
          by (simp add: sendWithoutHook_def)
        from m1 snd have m2: "ev \<in> set (fst (sendPrefixed env msg u r))"
          unfolding wo by auto
        have e2: "escapeCalls (fst ?R) = escapeCalls (fst (sendPrefixed env msg u r))"
          unfolding e1 wo by simp
        from sendPrefixed_shape [OF m2 snd] have ?P
          unfolding e2 using Some False by blast
        then show ?thesis by blast
      qed
    qed
  qed
qed

theorem relay_insertions_witness:
  "filter isSend (fst (sendToDiscord deniedUserEnv dmChan (MsgFile report) (Some alice) None))
     = [ChanSend (SendString (''**a'' @ [CHR 0x5C] @ ''_b** uploaded a file `my'' @ [CHR 0x5C]
                              @ ''_file.txt`: https://hs/f'')) None]
   \<and> escapeCalls (fst (sendToDiscord deniedUserEnv dmChan (MsgFile report) (Some alice) None))
     = [''a_b'', ''my_file.txt'']
   \<and> filter isSend (fst (sendToDiscord deniedBotEnv dmChan (MsgFile report) (Some alice) None))
     = [ChanSend (SendEmbed
          \<lparr>emb_title = None,
           emb_description = Some (''Uploaded a file `my'' @ [CHR 0x5C]
                                   @ ''_file.txt`: https://hs/f''),
           emb_image = None,
           emb_author = Some \<lparr>author_name = ''a_b'', author_iconURL = None,
                               author_url = Some ''https://matrix.to/#/@a:hs''\<rparr>,
           emb_fields = []\<rparr>) None]
   \<and> escapeCalls (fst (sendToDiscord deniedBotEnv dmChan (MsgFile report) (Some alice) None))
     = [''my_file.txt'']"
  using relay_insertions [of deniedUserEnv dmChan "MsgFile report" alice None]
        relay_insertions [of deniedBotEnv dmChan "MsgFile report" alice None]
  by (simp add: sendToDiscord_def sendWithoutHook_def sendPrefixed_def prefixedBody_def
        sendAsEmbed_def embedBody_def embedReply_def orUndefined_def truthy_opt_def
        replySuffix_def replyDescription_def makeSendThing_def emit_def after_def
        setDescription_def setAuthor_def resolveString_def
        backslashEscape_def newEmbed_def
        deniedUserEnv_def deniedBotEnv_def dmChan_def alice_def report_def)

text \<open>
  Claim C5. For every send with a sending identity on a guild text channel by a bot
  account, when listing the webhooks is denied, or the list has no webhook of the reserved
  name and creating one is denied: exactly one warning is logged and at most one send is
  attempted. Every send of the call is a channel send of one embed, and the outcome of
  the call is the outcome of that send, so the denial never reaches the caller. That
  embed carries the message: its author is the sending identity (display name, avatar,
  link to the home id); a text payload is its description, an embed payload with an image
  gives its title and image, an image file gives title and image, any other file a
  description that names and links it; a reply context with a description adds the two
  fields \<open>Replying to\<close> and \<open>Reply text\<close>. The send is left out only when preparing the
  embed raises (the escape call for a non-image file name is rejected, or the reply has a
  description but no author, or an author with an empty name), and that error is then the
  outcome; otherwise exactly that one send is made.
\<close>

theorem webhook_denied_falls_to_embed:
  assumes "chan_kind chan = TextChannel"
      and "acting_user env = Some cu" and "cu_bot cu"
      and "fetchWebhooks env = Inl e
           \<or> (\<exists>hs. fetchWebhooks env = Inr hs \<and> find (\<lambda>h. hook_name h = ''_matrix'') hs = None
                  \<and> createWebhook env ''_matrix'' = Inl e)"
  shows "length (filter isWarn (fst (sendToDiscord env chan msg (Some u) r))) = 1
       \<and> length (filter isSend (fst (sendToDiscord env chan msg (Some u) r))) \<le> 1
       \<and> (\<forall>ev\<in>set (fst (sendToDiscord env chan msg (Some u) r)). isSend ev \<longrightarrow>
            (\<exists>emb. ev = ChanSend (SendEmbed emb) None
               \<and> snd (sendToDiscord env chan msg (Some u) r) = chanSend env (SendEmbed emb) None
               \<and> emb_author emb
                   = Some \<lparr>author_name = su_displayname u,
                           author_iconURL = (case su_avatarUrl u of None \<Rightarrow> None
                                             | Some a \<Rightarrow> if a = [] then None else Some a),
                           author_url = Some (''https://matrix.to/#/'' @ su_mxid u)\<rparr>
               \<and> (case r of
                     None \<Rightarrow> emb_fields emb = []
                   | Some rp \<Rightarrow>
                      (case emb_description rp of
                         None \<Rightarrow> emb_fields emb = []
                       | Some d \<Rightarrow>
                          if d = [] then emb_fields emb = []
                          else (\<exists>a. emb_author rp = Some a \<and> author_name a \<noteq> []
                                  \<and> emb_fields emb
                                      = [(''Replying to'', author_name a), (''Reply text'', d)])))
               \<and> (case msg of
                     MsgString s \<Rightarrow>
                       emb_title emb = None \<and> emb_description emb = Some s
                       \<and> emb_image emb = None
                   | MsgEmbed m \<Rightarrow>
                      (case emb_image m of
                         None \<Rightarrow>
                           emb_title emb = None \<and> emb_description emb = None
                           \<and> emb_image emb = None
                       | Some url \<Rightarrow>
                           emb_title emb
                             = Some (case emb_title m of None \<Rightarrow> ''undefined'' | Some t \<Rightarrow> t)
                           \<and> emb_description emb = None \<and> emb_image emb = Some url)
                   | MsgFile f \<Rightarrow>
                      if file_isImage f
                      then emb_title emb = Some (file_filename f) \<and> emb_description emb = None
                           \<and> emb_image emb = Some (file_url f)
                      else emb_title emb = None \<and> emb_image emb = None
                           \<and> (\<exists>fn. parseMatrixMessage env (file_filename f) = Inr fn
                                \<and> emb_description emb
                                    = Some (''Uploaded a file `'' @ fn @ ''`: '' @ file_url f)))))
       \<and> (filter isSend (fst (sendToDiscord env chan msg (Some u) r)) = [] \<longrightarrow>
            (\<exists>e'. snd (sendToDiscord env chan msg (Some u) r) = Inl e'
               \<and> ((e' = TypeError
                    \<and> (\<exists>rp d. r = Some rp \<and> emb_description rp = Some d \<and> d \<noteq> []
                           \<and> emb_author rp = None))
                  \<or> (e' = RangeError
                    \<and> (\<exists>rp d a. r = Some rp \<and> emb_description rp = Some d \<and> d \<noteq> []
                           \<and> emb_author rp = Some a \<and> author_name a = []))
                  \<or> (\<exists>f. msg = MsgFile f \<and> \<not> file_isImage f
                         \<and> parseMatrixMessage env (file_filename f) = Inl e'))))
       \<and> ((\<forall>f. msg = MsgFile f \<and> \<not> file_isImage f
                 \<longrightarrow> (\<exists>s. parseMatrixMessage env (file_filename f) = Inr s))
          \<and> (\<forall>rp d. r = Some rp \<and> emb_description rp = Some d \<and> d \<noteq> []
                 \<longrightarrow> (\<exists>a. emb_author rp = Some a \<and> author_name a \<noteq> []))
          \<longrightarrow> (\<exists>emb. filter isSend (fst (sendToDiscord env chan msg (Some u) r))
                         = [ChanSend (SendEmbed emb) None]))"
proof -
  let ?R = "sendToDiscord env chan msg (Some u) r"
  let ?E = "sendAsEmbed env msg u r"
  obtain tr where fh: "findHook env = (tr, None)" and w: "length (filter isWarn tr) = 1"
    and s: "filter isSend tr = []"
    using findHook_denied [OF assms(4)] by (cases "findHook env") auto
  have run: "?R =
      emit (LogDebug ''Sending something to discord...'')
        (emit (LogDebug ''Trying to send as webhook...'')
          (after (tr @ [LogDebug ''Couldn't send as webhook''])
            (emit (LogDebug ''Trying to send as embed...'') ?E)))"
    using assms(1-3) fh by (simp add: sendToDiscord_def sendWithoutHook_def)
  have 1: "length (filter isWarn (fst ?R)) = 1"
    unfolding run using w by (simp add: sendAsEmbed_warns)
  have res: "snd ?R = snd ?E" unfolding run by simp
  have f: "filter isSend (fst ?R) = filter isSend (fst ?E)"
    unfolding run using s by simp
  have 2: "length (filter isSend (fst ?R)) \<le> 1"
    unfolding f by (rule sendAsEmbed_one_send)
  have 3: "\<exists>emb. ev = ChanSend (SendEmbed emb) None
               \<and> snd ?R = chanSend env (SendEmbed emb) None
               \<and> emb_author emb
                   = Some \<lparr>author_name = su_displayname u,
                           author_iconURL = (case su_avatarUrl u of None \<Rightarrow> None
                                             | Some a \<Rightarrow> if a = [] then None else Some a),
                           author_url = Some (''https://matrix.to/#/'' @ su_mxid u)\<rparr>
               \<and> (case r of
                     None \<Rightarrow> emb_fields emb = []
                   | Some rp \<Rightarrow>
                      (case emb_description rp of
                         None \<Rightarrow> emb_fields emb = []
                       | Some d \<Rightarrow>
                          if d = [] then emb_fields emb = []
                          else (\<exists>a. emb_author rp = Some a \<and> author_name a \<noteq> []
                                  \<and> emb_fields emb
                                      = [(''Replying to'', author_name a), (''Reply text'', d)])))
               \<and> (case msg of
                     MsgString s \<Rightarrow>
                       emb_title emb = None \<and> emb_description emb = Some s
                       \<and> emb_image emb = None
                   | MsgEmbed m \<Rightarrow>
                      (case emb_image m of
                         None \<Rightarrow>
                           emb_title emb = None \<and> emb_description emb = None
                           \<and> emb_image emb = None
                       | Some url \<Rightarrow>
                           emb_title emb
                             = Some (case emb_title m of None \<Rightarrow> ''undefined'' | Some t \<Rightarrow> t)
                           \<and> emb_description emb = None \<and> emb_image emb = Some url)
                   | MsgFile f \<Rightarrow>
                      if file_isImage f
                      then emb_title emb = Some (file_filename f) \<and> emb_description emb = None
                           \<and> emb_image emb = Some (file_url f)
                      else emb_title emb = None \<and> emb_image emb = None
                           \<and> (\<exists>fn. parseMatrixMessage env (file_filename f) = Inr fn
                                \<and> emb_description emb
                                    = Some (''Uploaded a file `'' @ fn @ ''`: '' @ file_url f)))"
    if "ev \<in> set (fst ?R)" and i: "isSend ev" for ev
  proof -
    from that have "ev \<in> set (filter isSend (fst ?R))" by simp
    then have "ev \<in> set (fst ?E)" unfolding f by simp
    from sendAsEmbed_sent [OF this i] obtain emb where
      a: "ev = ChanSend (SendEmbed emb) None" "snd ?E = chanSend env (SendEmbed emb) None"
         "emb_author emb
                   = Some \<lparr>author_name = su_displayname u,
                           author_iconURL = (case su_avatarUrl u of None \<Rightarrow> None
                                             | Some a \<Rightarrow> if a = [] then None else Some a),
                           author_url = Some (''https://matrix.to/#/'' @ su_mxid u)\<rparr>"
         "(case r of
                     None \<Rightarrow> emb_fields emb = []
                   | Some rp \<Rightarrow>
                      (case emb_description rp of
                         None \<Rightarrow> emb_fields emb = []
                       | Some d \<Rightarrow>
                          if d = [] then emb_fields emb = []
                          else (\<exists>a. emb_author rp = Some a \<and> author_name a \<noteq> []
                                  \<and> emb_fields emb
                                      = [(''Replying to'', author_name a), (''Reply text'', d)])))"
      and b: "(case msg of
                 MsgString s \<Rightarrow>
                   escapeCalls (fst ?E) = []
                   \<and> emb_title emb = None \<and> emb_description emb = Some s
                   \<and> emb_image emb = None
               | MsgEmbed m \<Rightarrow>
                  (case emb_image m of
                     None \<Rightarrow>
                       escapeCalls (fst ?E) = []
                       \<and> emb_title emb = None \<and> emb_description emb = None
                       \<and> emb_image emb = None
                   | Some url \<Rightarrow>
                       escapeCalls (fst ?E) = []
                       \<and> emb_title emb
                           = Some (case emb_title m of None \<Rightarrow> ''undefined'' | Some t \<Rightarrow> t)
                       \<and> emb_description emb = None \<and> emb_image emb = Some url)
               | MsgFile f \<Rightarrow>
                  if file_isImage f
                  then escapeCalls (fst ?E) = []
                       \<and> emb_title emb = Some (file_filename f) \<and> emb_description emb = None
                       \<and> emb_image emb = Some (file_url f)
                  else escapeCalls (fst ?E) = [file_filename f]
                       \<and> emb_title emb = None \<and> emb_image emb = None
                       \<and> (\<exists>fn. parseMatrixMessage env (file_filename f) = Inr fn
                            \<and> emb_description emb
                                = Some (''Uploaded a file `'' @ fn @ ''`: '' @ file_url f)))"
      by blast
    from b have b': "(case msg of
                     MsgString s \<Rightarrow>
                       emb_title emb = None \<and> emb_description emb = Some s
                       \<and> emb_image emb = None
                   | MsgEmbed m \<Rightarrow>
                      (case emb_image m of
                         None \<Rightarrow>
                           emb_title emb = None \<and> emb_description emb = None
                           \<and> emb_image emb = None
                       | Some url \<Rightarrow>
                           emb_title emb
                             = Some (case emb_title m of None \<Rightarrow> ''undefined'' | Some t \<Rightarrow> t)
                           \<and> emb_description emb = None \<and> emb_image emb = Some url)
                   | MsgFile f \<Rightarrow>
                      if file_isImage f
                      then emb_title emb = Some (file_filename f) \<and> emb_description emb = None
                           \<and> emb_image emb = Some (file_url f)
                      else emb_title emb = None \<and> emb_image emb = None
                           \<and> (\<exists>fn. parseMatrixMessage env (file_filename f) = Inr fn
                                \<and> emb_description emb
                                    = Some (''Uploaded a file `'' @ fn @ ''`: '' @ file_url f)))"
      by (cases msg) (auto split: option.splits if_splits)
    show ?thesis
      apply (rule exI [of _ emb])
      unfolding res using a b' by simp
  qed
  have 4: "\<exists>e'. snd ?R = Inl e'
               \<and> ((e' = TypeError
                    \<and> (\<exists>rp d. r = Some rp \<and> emb_description rp = Some d \<and> d \<noteq> []
                           \<and> emb_author rp = None))
                  \<or> (e' = RangeError
                    \<and> (\<exists>rp d a. r = Some rp \<and> emb_description rp = Some d \<and> d \<noteq> []
                           \<and> emb_author rp = Some a \<and> author_name a = []))
                  \<or> (\<exists>f. msg = MsgFile f \<and> \<not> file_isImage f
                         \<and> parseMatrixMessage env (file_filename f) = Inl e'))"
    if "filter isSend (fst ?R) = []"
    using sendAsEmbed_unsent [of env msg u r] that unfolding f res by blast
  have 5: "\<exists>emb. filter isSend (fst ?R) = [ChanSend (SendEmbed emb) None]"
    if a: "\<forall>f. msg = MsgFile f \<and> \<not> file_isImage f
                 \<longrightarrow> (\<exists>s. parseMatrixMessage env (file_filename f) = Inr s)"
     and b: "\<forall>rp d. r = Some rp \<and> emb_description rp = Some d \<and> d \<noteq> []
                 \<longrightarrow> (\<exists>a. emb_author rp = Some a \<and> author_name a \<noteq> [])"
  proof (cases "filter isSend (fst ?R)")
    case Nil
    from 4 [OF Nil] a b have False by (metis Inl_Inr_False option.distinct(1) option.inject)
    then show ?thesis ..
  next
    case (Cons ev evs)
    with 2 have one: "filter isSend (fst ?R) = [ev]" by (cases evs) simp_all
    then have "ev \<in> set (filter isSend (fst ?R))" by simp
    then have "ev \<in> set (fst ?R)" and "isSend ev" by simp_all
    from 3 [OF this] one show ?thesis by blast
  qed
  show ?thesis
    using 1 2 3 4 5 by (intro conjI ballI impI) blast+
qed

theorem webhook_denied_falls_to_embed_witness:
  "chan_kind textChan = TextChannel
   \<and> acting_user deniedBotEnv = Some \<lparr>cu_id = ''me'', cu_bot = True, cu_friends = []\<rparr>
   \<and> fetchWebhooks deniedBotEnv = Inl (ApiError ''Missing Permissions'')
   \<and> length (filter isWarn
        (fst (sendToDiscord deniedBotEnv textChan (MsgString ''hi'') (Some alice) (Some quoted)))) = 1
   \<and> filter isSend
        (fst (sendToDiscord deniedBotEnv textChan (MsgString ''hi'') (Some alice) (Some quoted)))
      = [ChanSend (SendEmbed
           \<lparr>emb_title = None, emb_description = Some ''hi'', emb_image = None,
            emb_author = Some \<lparr>author_name = ''a_b'', author_iconURL = None,
                                author_url = Some ''https://matrix.to/#/@a:hs''\<rparr>,
            emb_fields = [(''Replying to'', ''carol''), (''Reply text'', ''earlier'')]\<rparr>) None]
   \<and> snd (sendToDiscord deniedBotEnv textChan (MsgString ''hi'') (Some alice) (Some quoted))
      = Inr 2"
  using webhook_denied_falls_to_embed
          [of textChan deniedBotEnv "\<lparr>cu_id = ''me'', cu_bot = True, cu_friends = []\<rparr>"
              "ApiError ''Missing Permissions''" "MsgString ''hi''" alice "Some quoted"]
  by (simp add: sendToDiscord_def sendWithoutHook_def sendAsEmbed_def embedBody_def
        embedReply_def replyDescription_def findHook_def makeSendThing_def orUndefined_def
        setDescription_def setAuthor_def addField_def resolveString_def
        truthy_opt_def truthy_def newEmbed_def emit_def after_def
        deniedBotEnv_def textChan_def alice_def quoted_def)

text \<open>
  Claim C6. For every send with a sending identity by a non-bot account when no webhook
  is available (the channel is not a guild text channel, or listing the webhooks is
  denied, or the list has none of the reserved name and creating one is denied), a
  plain-text payload \<open>body\<close> is sent as one channel message, the only send of the call:
  \<open>**name**: body\<close> with \<open>name\<close> the escaped display name, followed by a newline and
  \<open>>>> description\<close> when a reply context with a non-empty description is present. The
  outcome of the call is the outcome of that send.
\<close>

theorem prefixed_plain_text_message:
  assumes "acting_user env = Some cu" and "\<not> cu_bot cu"
      and "chan_kind chan \<noteq> TextChannel
           \<or> (\<exists>e. fetchWebhooks env = Inl e)
           \<or> (\<exists>hs e. fetchWebhooks env = Inr hs \<and> find (\<lambda>h. hook_name h = ''_matrix'') hs = None
                  \<and> createWebhook env ''_matrix'' = Inl e)"
      and "parseMatrixMessage env (su_displayname u) = Inr name"
      and "text = ''**'' @ name @ ''**: '' @ body
             @ (case r of None \<Rightarrow> []
                | Some rp \<Rightarrow> (case emb_description rp of None \<Rightarrow> []
                     | Some d \<Rightarrow> if d = [] then [] else CHR 0x0A # ''>>> '' @ d))"
  shows "filter isSend (fst (sendToDiscord env chan (MsgString body) (Some u) r))
           = [ChanSend (SendString text) None]
       \<and> snd (sendToDiscord env chan (MsgString body) (Some u) r)
           = chanSend env (SendString text) None"
proof -
  have "chan_kind chan \<noteq> TextChannel \<or> snd (findHook env) = None"
  proof (cases "chan_kind chan = TextChannel")
    case True
    with assms(3) have "(\<exists>e. fetchWebhooks env = Inl e)
           \<or> (\<exists>hs e. fetchWebhooks env = Inr hs \<and> find (\<lambda>h. hook_name h = ''_matrix'') hs = None
                  \<and> createWebhook env ''_matrix'' = Inl e)" by simp
    then show ?thesis by (simp add: findHook_unavailable)
  qed simp
  then obtain pre where pre: "filter isSend pre = []"
    and run: "sendToDiscord env chan (MsgString body) (Some u) r
               = after pre (sendWithoutHook env (MsgString body) u r)"
    using relay_without_hook by blast
  have t: "text = ''**'' @ name @ ''**: '' @ body @ replySuffix r"
    using assms(5) by (simp add: replySuffix_cases)
  have "sendWithoutHook env (MsgString body) u r
          = emit (LogDebug ''Prepending sender information to send the message out...'')
              ([Escape (su_displayname u), ChanSend (SendString text) None],
               chanSend env (SendString text) None)"
    using assms(1,2) sendPrefixed_string [OF assms(4)] t by (simp add: sendWithoutHook_def)
  then show ?thesis unfolding run using pre by simp
qed

theorem prefixed_plain_text_message_witness:
  "acting_user deniedUserEnv = Some \<lparr>cu_id = ''me'', cu_bot = False, cu_friends = []\<rparr>
   \<and> chan_kind dmChan \<noteq> TextChannel
   \<and> parseMatrixMessage deniedUserEnv (su_displayname alice) = Inr (''a'' @ [CHR 0x5C] @ ''_b'')
   \<and> filter isSend
        (fst (sendToDiscord deniedUserEnv dmChan (MsgString ''hi'') (Some alice) (Some quoted)))
      = [ChanSend (SendString (''**a'' @ [CHR 0x5C] @ ''_b**: hi'' @ [CHR 0x0A] @ ''>>> earlier''))
           None]
   \<and> snd (sendToDiscord deniedUserEnv dmChan (MsgString ''hi'') (Some alice) (Some quoted))
      = Inr 2"
  using prefixed_plain_text_message
          [of deniedUserEnv "\<lparr>cu_id = ''me'', cu_bot = False, cu_friends = []\<rparr>" dmChan alice
              "''a'' @ [CHR 0x5C] @ ''_b''"
              "''**a'' @ [CHR 0x5C] @ ''_b**: hi'' @ [CHR 0x0A] @ ''>>> earlier''"
              "''hi''" "Some quoted"]
  by (simp add: deniedUserEnv_def deniedBotEnv_def dmChan_def alice_def quoted_def
        backslashEscape_def newEmbed_def)

text \<open>
  Claim C9, as stated: a rich-embed payload without image and description, relayed as
  prefixed plain text, is sent as the bold sender-name prefix alone. For a non-bot account
  on a direct-message channel and the empty embed, the display name is escaped but never
  inserted: the text sent is the empty string, not the prefix.
\<close>

theorem bare_embed_sent_as_empty_text:
  "sendToDiscord deniedUserEnv dmChan (MsgEmbed newEmbed) (Some alice) None
     = ([LogDebug ''Sending something to discord...'',
         LogDebug ''Prepending sender information to send the message out...'',
         Escape ''a_b'',
         ChanSend (SendString []) None],
        Inr 2)
   \<and> filter isSend (fst (sendToDiscord deniedUserEnv dmChan (MsgEmbed newEmbed) (Some alice) None))
      \<noteq> [ChanSend (SendString (''**'' @ backslashEscape ''a_b'' @ ''**'')) None]"
  by (simp add: sendToDiscord_def sendWithoutHook_def sendPrefixed_def prefixedBody_def
        replySuffix_def replyDescription_def makeSendThing_def emit_def after_def
        deniedUserEnv_def deniedBotEnv_def dmChan_def alice_def newEmbed_def
        backslashEscape_def)

text \<open>
  Claim C9, amended. For every relayed send by a non-bot account when no webhook is
  available, a rich-embed payload without image contributes no text at all, not even the
  sender-name prefix: the one message sent is the empty string, followed only by the
  block-quoted reply line when a reply context with a non-empty description is present.
  It is handed to the channel's send as it is, and the outcome of the call is the outcome
  of that send.
\<close>

theorem prefixed_bare_embed_has_no_prefix:
  assumes "acting_user env = Some cu" and "\<not> cu_bot cu"
      and "chan_kind chan \<noteq> TextChannel
           \<or> (\<exists>e. fetchWebhooks env = Inl e)
           \<or> (\<exists>hs e. fetchWebhooks env = Inr hs \<and> find (\<lambda>h. hook_name h = ''_matrix'') hs = None
                  \<and> createWebhook env ''_matrix'' = Inl e)"
      and "parseMatrixMessage env (su_displayname u) = Inr name"
      and "emb_image m = None"
      and "text = (case r of None \<Rightarrow> []
                | Some rp \<Rightarrow> (case emb_description rp of None \<Rightarrow> []
                     | Some d \<Rightarrow> if d = [] then [] else CHR 0x0A # ''>>> '' @ d))"
  shows "filter isSend (fst (sendToDiscord env chan (MsgEmbed m) (Some u) r))
           = [ChanSend (SendString text) None]
       \<and> snd (sendToDiscord env chan (MsgEmbed m) (Some u) r)
           = chanSend env (SendString text) None"
proof -
  have "chan_kind chan \<noteq> TextChannel \<or> snd (findHook env) = None"
  proof (cases "chan_kind chan = TextChannel")
    case True
    with assms(3) have "(\<exists>e. fetchWebhooks env = Inl e)
           \<or> (\<exists>hs e. fetchWebhooks env = Inr hs \<and> find (\<lambda>h. hook_name h = ''_matrix'') hs = None
                  \<and> createWebhook env ''_matrix'' = Inl e)" by simp
    then show ?thesis by (simp add: findHook_unavailable)
  qed simp
  then obtain pre where pre: "filter isSend pre = []"
    and run: "sendToDiscord env chan (MsgEmbed m) (Some u) r
               = after pre (sendWithoutHook env (MsgEmbed m) u r)"
    using relay_without_hook by blast
  have t: "text = replySuffix r"
    using assms(6) by (simp add: replySuffix_cases)
  have "sendWithoutHook env (MsgEmbed m) u r
          = emit (LogDebug ''Prepending sender information to send the message out...'')
              ([Escape (su_displayname u), ChanSend (SendString text) None],
               chanSend env (SendString text) None)"
    using assms(1,2) sendPrefixed_bare_embed [OF assms(4,5)] t by (simp add: sendWithoutHook_def)
  then show ?thesis unfolding run using pre by simp
qed

theorem prefixed_bare_embed_has_no_prefix_witness:
  "acting_user deniedUserEnv = Some \<lparr>cu_id = ''me'', cu_bot = False, cu_friends = []\<rparr>
   \<and> chan_kind dmChan \<noteq> TextChannel
   \<and> emb_image (newEmbed\<lparr>emb_title := Some ''t''\<rparr>) = None
   \<and> filter isSend
        (fst (sendToDiscord deniedUserEnv dmChan (MsgEmbed (newEmbed\<lparr>emb_title := Some ''t''\<rparr>))
               (Some alice) (Some quoted)))
      = [ChanSend (SendString ([CHR 0x0A] @ ''>>> earlier'')) None]
   \<and> snd (sendToDiscord deniedUserEnv dmChan (MsgEmbed (newEmbed\<lparr>emb_title := Some ''t''\<rparr>))
               (Some alice) (Some quoted))
      = Inr 2"
  using prefixed_bare_embed_has_no_prefix
          [of deniedUserEnv "\<lparr>cu_id = ''me'', cu_bot = False, cu_friends = []\<rparr>" dmChan alice
              "''a'' @ [CHR 0x5C] @ ''_b''" "newEmbed\<lparr>emb_title := Some ''t''\<rparr>"
              "[CHR 0x0A] @ ''>>> earlier''" "Some quoted"]
  by (simp add: deniedUserEnv_def deniedBotEnv_def dmChan_def alice_def quoted_def
        backslashEscape_def newEmbed_def)

section \<open>Guild structure walk\<close>

text \<open>
  Claim C8. For every guild (its channel collection is keyed by distinct, non-empty
  ids), every allowlist and every acting account, in every run of the walk:
  \<open>onCategory\<close> is invoked only for a category of the guild that the acting account is a
  member of and that has a child passing the allowlist, membership and type test, so
  never for a category none of whose children qualify; no callback is invoked twice with
  the same channel, so \<open>onCategory\<close> at most once per category and \<open>onChannel\<close> at most
  once per channel; and whenever \<open>onChannel\<close> is invoked for a child of a category,
  \<open>onCategory\<close> of that category was invoked immediately before the \<open>onChannel\<close> of its
  first qualifying child. In a walk that completes, for every category that the acting
  account is a member of and that has a qualifying child, \<open>onCategory\<close> is invoked
  exactly once, immediately before the \<open>onChannel\<close> of its first qualifying child; a
  walk in which no callback rejects completes.
\<close>

theorem guild_walk_callbacks:
  assumes "getBridgedGuilds env pid = Inr bg" and "getBridgedChannels env pid = Inr bc"
      and "distinct (map chan_id (guild_channels g))"
      and "\<forall>c\<in>set (guild_channels g). chan_id c \<noteq> []"
  shows "(\<forall>cat. OnCategory cat \<in> set (fst (iterateGuildStructure env (Some u) pid g)) \<longrightarrow>
            cat \<in> set (guild_channels g) \<and> chan_kind cat = CategoryChannel
            \<and> cu_id u \<in> set (chan_members cat)
            \<and> (\<exists>c\<in>set (children g cat). qualifies bg bc g (cu_id u) c))
       \<and> (\<forall>ev. count_list (fst (iterateGuildStructure env (Some u) pid g)) ev \<le> 1)
       \<and> ((\<forall>c. chanCallback env c = None) \<and> (\<forall>c. catCallback env c = None) \<longrightarrow>
            (\<forall>cat\<in>set (guild_channels g). \<forall>c1.
                chan_kind cat = CategoryChannel \<and> cu_id u \<in> set (chan_members cat)
                \<and> find (qualifies bg bc g (cu_id u)) (children g cat) = Some c1 \<longrightarrow>
                count_list (fst (iterateGuildStructure env (Some u) pid g)) (OnCategory cat) = 1
                \<and> (\<exists>pre post. fst (iterateGuildStructure env (Some u) pid g)
                                 = pre @ OnCategory cat # OnChannel c1 # post)))
       \<and> (\<forall>cat\<in>set (guild_channels g). \<forall>c\<in>set (children g cat).
             OnChannel c \<in> set (fst (iterateGuildStructure env (Some u) pid g)) \<longrightarrow>
             (\<exists>c1 pre post. find (qualifies bg bc g (cu_id u)) (children g cat) = Some c1
                \<and> fst (iterateGuildStructure env (Some u) pid g)
                    = pre @ OnCategory cat # OnChannel c1 # post))
       \<and> (snd (iterateGuildStructure env (Some u) pid g) = None \<longrightarrow>
            (\<forall>cat\<in>set (guild_channels g). \<forall>c1.
                chan_kind cat = CategoryChannel \<and> cu_id u \<in> set (chan_members cat)
                \<and> find (qualifies bg bc g (cu_id u)) (children g cat) = Some c1 \<longrightarrow>
                count_list (fst (iterateGuildStructure env (Some u) pid g)) (OnCategory cat) = 1
                \<and> (\<exists>pre post. fst (iterateGuildStructure env (Some u) pid g)
                                 = pre @ OnCategory cat # OnChannel c1 # post)))
       \<and> ((\<forall>c. chanCallback env c = None) \<and> (\<forall>c. catCallback env c = None) \<longrightarrow>
            snd (iterateGuildStructure env (Some u) pid g) = None)"
proof -
  let ?T = "fst (iterateGuildStructure env (Some u) pid g)"
  let ?U = "uncategorizedCalls bg bc g (cu_id u) (guild_channels g)"
  let ?C = "categoriesCalls bg bc g (cu_id u) (guild_channels g)"
  note calls = iterateGuildStructure_calls [OF assms(1,2), of g u]
  from calls obtain rest where full: "?U @ ?C = ?T @ rest" by blast
  have dF: "distinct (?U @ ?C)" using assms(3,4) by (rule distinct_walk_calls)
  then have dT: "distinct ?T" unfolding full by simp
  have sub: "set ?T \<subseteq> set (?U @ ?C)" unfolding full by simp
  have 1: "cat \<in> set (guild_channels g) \<and> chan_kind cat = CategoryChannel
            \<and> cu_id u \<in> set (chan_members cat)
            \<and> (\<exists>c\<in>set (children g cat). qualifies bg bc g (cu_id u) c)"
    if "OnCategory cat \<in> set ?T" for cat
  proof -
    from that sub have "OnCategory cat \<in> set ?U \<or> OnCategory cat \<in> set ?C" by auto
    then have "OnCategory cat \<in> set ?C" unfolding set_uncategorizedCalls by auto
    then show ?thesis unfolding set_categoriesCalls set_childrenCalls by auto
  qed
  have 2: "count_list ?T ev \<le> 1" for ev using dT by (rule distinct_count_le_1)
  have compl: "count_list ?T (OnCategory cat) = 1
           \<and> (\<exists>pre post. ?T = pre @ OnCategory cat # OnChannel c1 # post)"
    if T: "?T = ?U @ ?C"
      and cat: "cat \<in> set (guild_channels g)" "chan_kind cat = CategoryChannel"
               "cu_id u \<in> set (chan_members cat)"
               "find (qualifies bg bc g (cu_id u)) (children g cat) = Some c1"
    for cat c1
  proof -
    from category_announced_before_first_child [OF cat]
    obtain pre post where C: "?C = pre @ OnCategory cat # OnChannel c1 # post" by blast
    have pos: "?T = (?U @ pre) @ OnCategory cat # OnChannel c1 # post"
      unfolding T C by simp
    then have "OnCategory cat \<in> set ?T" by simp
    with dT have "count_list ?T (OnCategory cat) = 1" by (rule distinct_count_1)
    with pos show ?thesis by blast
  qed
  have 6: "snd (iterateGuildStructure env (Some u) pid g) = None"
    if "(\<forall>c. chanCallback env c = None) \<and> (\<forall>c. catCallback env c = None)"
    using calls that by simp
  have 5: "count_list ?T (OnCategory cat) = 1
           \<and> (\<exists>pre post. ?T = pre @ OnCategory cat # OnChannel c1 # post)"
    if "snd (iterateGuildStructure env (Some u) pid g) = None"
      and "cat \<in> set (guild_channels g)" "chan_kind cat = CategoryChannel"
               "cu_id u \<in> set (chan_members cat)"
               "find (qualifies bg bc g (cu_id u)) (children g cat) = Some c1"
    for cat c1
  proof -
    from calls that(1) have "?T = ?U @ ?C" by blast
    from compl [OF this that(2-5)] show ?thesis .
  qed
  have 3: "count_list ?T (OnCategory cat) = 1
           \<and> (\<exists>pre post. ?T = pre @ OnCategory cat # OnChannel c1 # post)"
    if "(\<forall>c. chanCallback env c = None) \<and> (\<forall>c. catCallback env c = None)"
      and "cat \<in> set (guild_channels g)" "chan_kind cat = CategoryChannel"
               "cu_id u \<in> set (chan_members cat)"
               "find (qualifies bg bc g (cu_id u)) (children g cat) = Some c1"
    for cat c1
    using 5 [OF 6 [OF that(1)] that(2-5)] .
  have 4: "\<exists>c1 pre post. find (qualifies bg bc g (cu_id u)) (children g cat) = Some c1
                \<and> ?T = pre @ OnCategory cat # OnChannel c1 # post"
    if "cat \<in> set (guild_channels g)" and "c \<in> set (children g cat)"
      and "OnChannel c \<in> set ?T"
    for cat c
    using child_call_follows_category [OF assms(3,4) full that] .
  show ?thesis
    using 1 2 3 4 5 6 by (intro conjI allI impI ballI) blast+
qed

theorem guild_walk_callbacks_witness:
  "getBridgedGuilds walkEnv 1 = Inr [''g1''] \<and> getBridgedChannels walkEnv 1 = Inr []
   \<and> distinct (map chan_id (guild_channels demoGuild))
   \<and> find (qualifies [''g1''] [] demoGuild (cu_id me)) (children demoGuild talk) = Some rules
   \<and> iterateGuildStructure walkEnv (Some me) 1 demoGuild
       = ([OnChannel lobby, OnCategory talk, OnChannel rules, OnChannel chat], None)
   \<and> count_list (fst (iterateGuildStructure walkEnv (Some me) 1 demoGuild)) (OnCategory talk) = 1
   \<and> count_list (fst (iterateGuildStructure walkEnv (Some me) 1 demoGuild)) (OnCategory attic) = 0"
  using guild_walk_callbacks [of walkEnv 1 "[''g1'']" "[]" demoGuild me]
  by (simp add: iterateGuildStructure_def children_def notBridged_def qualifies_def
        truthy_opt_def truthy_def emit_def after_def
        walkEnv_def demoGuild_def me_def lobby_def talk_def voice_def rules_def chat_def
        staff_def mods_def attic_def dust_def)

end
